theory Spec2Isabelle
  imports
    Main
    "HOL-Library.AList"
    "HOL-Library.Char_ord"
    "HOL-Library.List_Lexorder"
    "HOL-Library.Sublist"
begin

section \<open>Data model of the job manager\<close>

text \<open>
  The model follows \<^verbatim>\<open>src/job_manager.py\<close>. The two SQLite tables are lists of rows,
  the APScheduler job store and the directory trees are finite maps or association
  lists, and every call that reads the clock, runs a subprocess or parses YAML takes
  the value that call returned as an argument.

  Timestamps are the texts produced by \<^verbatim>\<open>datetime.isoformat()\<close>; SQLite compares the
  TEXT column bytewise, which is the lexicographic order on \<^typ>\<open>string\<close> used here.
  A manifest modification time (\<^verbatim>\<open>st_mtime\<close>) is only ever compared for equality and
  is an integer here. A duration, which the source rounds to two decimals, is the
  number of hundredths of a second.
\<close>

type_synonym timestamp = string
type_synonym mtime = int

datatype yval = YInt int | YStr string

text \<open>A row of table \<^verbatim>\<open>jobs\<close>; \<open>jid\<close> is the primary key column \<^verbatim>\<open>id\<close>.\<close>

record job_row =
  jid :: string
  task :: string
  name :: string
  description :: string
  schedule_type :: yval
  schedule_config :: "string \<rightharpoonup> yval"
  entry_point :: string
  timeout :: int
  enabled :: bool
  yaml_mtime :: mtime
  created_at :: timestamp
  updated_at :: timestamp

text \<open>A row of table \<^verbatim>\<open>runs\<close>; \<open>run_id\<close> is the autoincrement column \<^verbatim>\<open>id\<close>.
  Nullable columns are options.\<close>

record run_row =
  run_id :: nat
  job_id :: string
  status :: string
  started_at :: timestamp
  finished_at :: "timestamp option"
  duration_seconds :: "int option"
  return_code :: "int option"
  log_path :: "string option"
  error_message :: "string option"

text \<open>A registration in the scheduler: the arguments of \<^verbatim>\<open>scheduler.add_job\<close>.\<close>

record trigger =
  trig_kind :: string
  trig_kwargs :: "string \<rightharpoonup> yval"
  max_instances :: nat
  coalesce :: bool

text \<open>A file of a task directory, and a task directory (a bundle of files; uploads
  are stored under their base name, so a bundle is flat).\<close>

record fs_file =
  f_mtime :: mtime
  f_text :: string

type_synonym task_bundle = "string \<rightharpoonup> fs_file"

text \<open>A parsed manifest: the mapping \<^verbatim>\<open>yaml.safe_load\<close> returns, by key. An absent
  key is \<open>None\<close>; \<open>cfg_schedule\<close> is the nested mapping under \<^verbatim>\<open>schedule\<close>.\<close>

record manifest =
  cfg_name :: "string option"
  cfg_description :: "string option"
  cfg_entry_point :: "string option"
  cfg_timeout :: "int option"
  cfg_schedule :: "(string \<rightharpoonup> yval) option"

text \<open>
  The state of a \<^verbatim>\<open>JobManager\<close>: the database, the scheduler's registrations, the
  per-job locks (\<open>True\<close> when held), the pending set, the jobs directory (its task
  directories by name; entries that are not directories are skipped by the scanner
  and left out), the staging directory beneath it, and the files below the logs root
  by resolved absolute path. \<open>jobs_dir_exists\<close> tells whether the jobs directory
  itself is there; when it is not, it has no entries and no staging directory.
\<close>

record manager =
  jobs :: "job_row list"
  runs :: "run_row list"
  last_run_id :: nat
  scheduler :: "string \<rightharpoonup> trigger"
  job_locks :: "(string \<times> bool) list"
  pending_updates :: "string list"
  jobs_dir_exists :: bool
  jobs_dir :: "(string \<times> task_bundle) list"
  staging_dir :: "(string \<times> task_bundle) list"
  logs_dir :: string
  files :: "string list \<rightharpoonup> string"

datatype error = ValueError string | OSError string | OperationalError string | TypeError string

section \<open>Paths and reading a log\<close>

text \<open>
  \<^verbatim>\<open>pathlib\<close> on a POSIX tree without symbolic links. A path text is split at
  \<^verbatim>\<open>/\<close>; \<^verbatim>\<open>logs_dir / log_path\<close> is \<^verbatim>\<open>log_path\<close> itself when that is absolute;
  \<^verbatim>\<open>resolve()\<close> drops empty and \<^verbatim>\<open>.\<close> components and lets \<^verbatim>\<open>..\<close> remove the
  component before it (at the root it stays at the root); \<^verbatim>\<open>str\<close> writes the
  components back with \<^verbatim>\<open>/\<close> before each. The logs root is an absolute path.
\<close>

fun split_on :: "char \<Rightarrow> string \<Rightarrow> string list" where
  "split_on c [] = [[]]"
| "split_on c (x # xs) =
     (if x = c then [] # split_on c xs
      else (case split_on c xs of [] \<Rightarrow> [[x]] | w # ws \<Rightarrow> (x # w) # ws))"

definition is_absolute :: "string \<Rightarrow> bool" where
  "is_absolute p = (case p of [] \<Rightarrow> False | x # _ \<Rightarrow> x = CHR ''/'')"

definition resolve_step :: "string list \<Rightarrow> string \<Rightarrow> string list" where
  "resolve_step acc c =
     (if c = [] \<or> c = ''.'' then acc
      else if c = ''..'' then butlast acc
      else acc @ [c])"

definition resolve :: "string list \<Rightarrow> string list" where
  "resolve parts = foldl resolve_step [] parts"

definition path_join :: "string \<Rightarrow> string \<Rightarrow> string list" where
  "path_join base p =
     (if is_absolute p then split_on CHR ''/'' p
      else split_on CHR ''/'' base @ split_on CHR ''/'' p)"

fun path_str :: "string list \<Rightarrow> string" where
  "path_str [] = ''/''"
| "path_str cs = concat (map (\<lambda>c. CHR ''/'' # c) cs)"

text \<open>\<^verbatim>\<open>get_log_content\<close>: the text of the file, or \<open>None\<close> for "not found".\<close>

definition get_log_content :: "manager \<Rightarrow> string \<Rightarrow> string option" where
  "get_log_content m path =
     (let full_path = resolve (path_join (logs_dir m) path) in
      if \<not> prefix (path_str (resolve (split_on CHR ''/'' (logs_dir m)))) (path_str full_path)
      then None
      else files m full_path)"

text \<open>A resolved path lies inside the logs root when the root's components are a
  prefix of the path's components.\<close>

definition inside_logs_root :: "manager \<Rightarrow> string \<Rightarrow> bool" where
  "inside_logs_root m path =
     prefix (resolve (split_on CHR ''/'' (logs_dir m)))
            (resolve (path_join (logs_dir m) path))"

text \<open>A manager with no jobs, whose logs root is \<^verbatim>\<open>/app/logs\<close>, beside which lies a
  sibling directory \<^verbatim>\<open>/app/logs_backup\<close> holding one file.\<close>

definition sibling_manager :: manager where
  "sibling_manager =
     \<lparr> jobs = [], runs = [], last_run_id = 0, scheduler = Map.empty,
       job_locks = [], pending_updates = [],
       jobs_dir_exists = True, jobs_dir = [], staging_dir = [],
       logs_dir = ''/app/logs'',
       files = [[''app'', ''logs_backup'', ''x.log''] \<mapsto> ''secret''] \<rparr>"

section \<open>The execution engine\<close>

text \<open>Decimal text of an integer, as \<^verbatim>\<open>str\<close> and an f-string write it.\<close>

definition digit_char :: "nat \<Rightarrow> char" where
  "digit_char n = char_of (48 + n)"

function str_of_nat :: "nat \<Rightarrow> string" where
  "str_of_nat n =
     (if n < 10 then [digit_char n] else str_of_nat (n div 10) @ [digit_char (n mod 10)])"
  by pat_completeness auto
termination
  by (relation "measure id") auto

definition str_of_int :: "int \<Rightarrow> string" where
  "str_of_int i = (if i < 0 then CHR ''-'' # str_of_nat (nat (- i)) else str_of_nat (nat i))"

definition nl :: string where
  "nl = [CHR 0x0A]"

text \<open>\<^verbatim>\<open>SELECT ... FROM jobs WHERE id = ?\<close> followed by \<^verbatim>\<open>fetchone()\<close>.\<close>

definition get_job :: "manager \<Rightarrow> string \<Rightarrow> job_row option" where
  "get_job m j = find (\<lambda>r. jid r = j) (jobs m)"

text \<open>The identifier an \<^verbatim>\<open>AUTOINCREMENT\<close> column gives the next inserted row: one more
  than the largest identifier the table has ever held.\<close>

definition next_run_id :: "manager \<Rightarrow> nat" where
  "next_run_id m = Suc (foldr max (map run_id (runs m)) (last_run_id m))"

text \<open>
  What \<^verbatim>\<open>subprocess.run\<close> did: it returned (exit code, captured standard output and
  standard error), it raised \<^verbatim>\<open>TimeoutExpired\<close> (with the partial output, empty when
  there is none), or it raised another exception (with its text).
\<close>

datatype proc_outcome =
  Exited int string string
| TimedOut string string
| Raised string

text \<open>What one execution reads from outside: the clock at the start, as
  \<^verbatim>\<open>isoformat()\<close> text and as the log file name \<^verbatim>\<open>strftime\<close> makes of it, the
  subprocess, and the clock at the end with the rounded duration.\<close>

record run_env =
  env_started_at :: timestamp
  env_log_name :: string
  env_proc :: proc_outcome
  env_finished_at :: timestamp
  env_duration :: int

text \<open>The directory of a task as text: \<^verbatim>\<open>str(self.jobs_dir / task)\<close>. The jobs
  directory lies beside the logs directory, under the base directory.\<close>

definition job_path_str :: "string \<Rightarrow> string \<Rightarrow> string" where
  "job_path_str jobs_root tsk = jobs_root @ ''/'' @ tsk"

text \<open>The three log texts of \<^verbatim>\<open>_run_job\<close>.\<close>

definition exit_log :: "string \<Rightarrow> timestamp \<Rightarrow> string \<Rightarrow> string \<Rightarrow> int \<Rightarrow> string \<Rightarrow> string \<Rightarrow> string" where
  "exit_log j started ep wd rc out err =
     ''=== Job: '' @ j @ '' ==='' @ nl @
     ''Started: '' @ started @ nl @
     ''Command: uv run '' @ ep @ nl @
     ''Working dir: '' @ wd @ nl @
     ''Return code: '' @ str_of_int rc @ nl @
     replicate 40 CHR ''='' @ nl @ nl @
     (if out \<noteq> [] then ''--- STDOUT ---'' @ nl @ out @ nl else []) @
     (if err \<noteq> [] then ''--- STDERR ---'' @ nl @ err @ nl else [])"

definition timeout_log :: "string \<Rightarrow> timestamp \<Rightarrow> int \<Rightarrow> string \<Rightarrow> string \<Rightarrow> string" where
  "timeout_log j started tmo out err =
     ''=== Job: '' @ j @ '' ==='' @ nl @
     ''Started: '' @ started @ nl @
     ''TIMEOUT after '' @ str_of_int tmo @ ''s'' @ nl @
     (if out \<noteq> [] then ''--- STDOUT (partial) ---'' @ nl @ out else []) @
     (if err \<noteq> [] then ''--- STDERR (partial) ---'' @ nl @ err else [])"

definition error_log :: "string \<Rightarrow> string \<Rightarrow> string" where
  "error_log j e = ''=== Job: '' @ j @ '' ==='' @ nl @ ''Error: '' @ e @ nl"

text \<open>The \<^verbatim>\<open>try\<close> statement of \<^verbatim>\<open>_run_job\<close>: status, return code, error message and
  the text written to the log file. The log file is an entry of the file map of the
  manager, and writing it does not raise here.\<close>

definition run_outcome ::
  "string \<Rightarrow> job_row \<Rightarrow> string \<Rightarrow> timestamp \<Rightarrow> proc_outcome \<Rightarrow>
   string \<times> int option \<times> string option \<times> string" where
  "run_outcome j job jobs_root started pr =
     (case pr of
        Exited rc out err \<Rightarrow>
          (if rc \<noteq> 0
           then (''failed'', Some rc, Some (take 500 (if err \<noteq> [] then err else out)),
                 exit_log j started (entry_point job) (job_path_str jobs_root (task job)) rc out err)
           else (''success'', Some rc, None,
                 exit_log j started (entry_point job) (job_path_str jobs_root (task job)) rc out err))
      | TimedOut out err \<Rightarrow>
          (''timeout'', None,
           Some (''Timed out after '' @ str_of_int (timeout job) @ '' seconds''),
           timeout_log j started (timeout job) out err)
      | Raised e \<Rightarrow>
          (''failed'', None, Some (take 500 e), error_log j e))"

text \<open>The \<^verbatim>\<open>INSERT INTO runs\<close> of \<^verbatim>\<open>_run_job\<close>: a new row in state \<^verbatim>\<open>running\<close>; the
  columns the statement does not name are NULL.\<close>

definition insert_run :: "manager \<Rightarrow> string \<Rightarrow> timestamp \<Rightarrow> string \<Rightarrow> manager" where
  "insert_run m j started rel =
     m\<lparr> runs := runs m @
            [\<lparr> run_id = next_run_id m, job_id = j, status = ''running'',
               started_at = started, finished_at = None, duration_seconds = None,
               return_code = None, log_path = Some rel, error_message = None \<rparr>],
        last_run_id := next_run_id m \<rparr>"

text \<open>The final \<^verbatim>\<open>UPDATE runs ... WHERE id=?\<close> of \<^verbatim>\<open>_run_job\<close>.\<close>

definition finalize_run ::
  "manager \<Rightarrow> nat \<Rightarrow> string \<Rightarrow> timestamp \<Rightarrow> int \<Rightarrow> int option \<Rightarrow> string option \<Rightarrow> manager" where
  "finalize_run m rid st fin dur rc msg =
     m\<lparr> runs := map (\<lambda>r. if run_id r = rid
                          then r\<lparr> status := st, finished_at := Some fin,
                                  duration_seconds := Some dur, return_code := rc,
                                  error_message := msg \<rparr>
                          else r) (runs m) \<rparr>"

text \<open>\<^verbatim>\<open>_run_job\<close>. The jobs directory's path text only appears in the log file.\<close>

definition run_job :: "string \<Rightarrow> manager \<Rightarrow> string \<Rightarrow> run_env \<Rightarrow> manager" where
  "run_job jobs_root m j env =
     (case get_job m j of
        None \<Rightarrow> m
      | Some job \<Rightarrow>
          if \<not> enabled job then m
          else
            (let rel = task job @ ''/'' @ env_log_name env;
                 rid = next_run_id m;
                 m1 = insert_run m j (env_started_at env) rel;
                 (st, rc, msg, text) =
                    run_outcome j job jobs_root (env_started_at env) (env_proc env);
                 m2 = m1\<lparr> files := (files m1)(resolve (path_join (logs_dir m1) rel) \<mapsto> text) \<rparr>
             in finalize_run m2 rid st (env_finished_at env) (env_duration env) rc msg))"

text \<open>The per-job locks. \<^verbatim>\<open>_get_job_lock\<close> creates the lock on first use;
  \<^verbatim>\<open>execute_job\<close> returns at once when the lock is held (another execution of the
  job is under way), and otherwise holds it for the length of \<^verbatim>\<open>_run_job\<close>.\<close>

definition get_job_lock :: "manager \<Rightarrow> string \<Rightarrow> manager" where
  "get_job_lock m j =
     (if map_of (job_locks m) j = None
      then m\<lparr> job_locks := job_locks m @ [(j, False)] \<rparr> else m)"

definition execute_job :: "string \<Rightarrow> manager \<Rightarrow> string \<Rightarrow> run_env \<Rightarrow> manager" where
  "execute_job jobs_root m j env =
     (let m1 = get_job_lock m j in
      if map_of (job_locks m1) j = Some True then m1
      else run_job jobs_root m1 j env)"

fun is_system_idle_loop :: "(string \<times> bool) list \<Rightarrow> bool" where
  "is_system_idle_loop [] = True"
| "is_system_idle_loop (l # ls) = (if snd l then False else is_system_idle_loop ls)"

definition is_system_idle :: "manager \<Rightarrow> bool" where
  "is_system_idle m = is_system_idle_loop (job_locks m)"

section \<open>Recovery and retention\<close>

text \<open>\<^verbatim>\<open>_cleanup_stale_runs\<close>: one \<^verbatim>\<open>UPDATE runs SET status, error_message, finished_at
  WHERE status='running'\<close>.\<close>

definition cleanup_stale_runs :: "manager \<Rightarrow> timestamp \<Rightarrow> manager" where
  "cleanup_stale_runs m now =
     m\<lparr> runs := map (\<lambda>r. if status r = ''running''
                          then r\<lparr> status := ''failed'',
                                  error_message := Some ''System restarted while running'',
                                  finished_at := Some now \<rparr>
                          else r) (runs m) \<rparr>"

text \<open>
  \<^verbatim>\<open>cleanup_old_logs\<close>. \<open>cutoff\<close> is the text of now minus the retention window;
  \<open>unlink_fails\<close> tells for which files \<^verbatim>\<open>unlink()\<close> raises (the source logs that and
  goes on). The loop visits the old runs in turn and removes the log file of each
  when it has one and the file exists.
\<close>

definition log_file_of :: "manager \<Rightarrow> string \<Rightarrow> string list" where
  "log_file_of m rel = resolve (path_join (logs_dir m) rel)"

fun unlink_logs ::
  "manager \<Rightarrow> (string list \<Rightarrow> bool) \<Rightarrow> run_row list \<Rightarrow> (string list \<rightharpoonup> string) \<Rightarrow>
   (string list \<rightharpoonup> string)" where
  "unlink_logs m unlink_fails [] fs = fs"
| "unlink_logs m unlink_fails (r # rs) fs =
     (case log_path r of
        None \<Rightarrow> unlink_logs m unlink_fails rs fs
      | Some rel \<Rightarrow>
          if rel = [] then unlink_logs m unlink_fails rs fs
          else if fs (log_file_of m rel) = None then unlink_logs m unlink_fails rs fs
          else if unlink_fails (log_file_of m rel) then unlink_logs m unlink_fails rs fs
          else unlink_logs m unlink_fails rs (fs(log_file_of m rel := None)))"

definition cleanup_old_logs :: "manager \<Rightarrow> timestamp \<Rightarrow> (string list \<Rightarrow> bool) \<Rightarrow> manager" where
  "cleanup_old_logs m cutoff unlink_fails =
     m\<lparr> files := unlink_logs m unlink_fails
                    (filter (\<lambda>r. started_at r < cutoff) (runs m)) (files m),
        runs := filter (\<lambda>r. \<not> started_at r < cutoff) (runs m) \<rparr>"

section \<open>Registration and triggers\<close>

text \<open>
  The scheduler is APScheduler's; of it the model keeps the registrations by job
  identifier. \<^verbatim>\<open>remove_job\<close> drops a registration (the source ignores the error it
  raises when there is none). \<^verbatim>\<open>add_job(..., replace_existing=True, **trigger_kwargs)\<close>
  builds the trigger from the keyword arguments and puts the registration in place; it
  raises when the trigger does not take the arguments (a keyword the trigger does not
  know, a value it cannot read), and the source does not catch that. \<open>check kind kwargs\<close>
  is the exception raised for a trigger kind and its keyword arguments, \<open>None\<close> when
  they are accepted.
\<close>

type_synonym trigger_check = "string \<Rightarrow> (string \<rightharpoonup> yval) \<Rightarrow> error option"

definition remove_job :: "(string \<rightharpoonup> trigger) \<Rightarrow> string \<Rightarrow> (string \<rightharpoonup> trigger)" where
  "remove_job sch j = sch(j := None)"

definition add_job ::
  "trigger_check \<Rightarrow> (string \<rightharpoonup> trigger) \<Rightarrow> string \<Rightarrow> string \<Rightarrow> (string \<rightharpoonup> yval) \<Rightarrow>
   error + (string \<rightharpoonup> trigger)" where
  "add_job check sch kind j kwargs =
     (case check kind kwargs of
        Some e \<Rightarrow> Inl e
      | None \<Rightarrow> Inr (sch(j \<mapsto> \<lparr> trig_kind = kind, trig_kwargs = kwargs,
                                 max_instances = 1, coalesce = True \<rparr>)))"

text \<open>The keyword arguments \<^verbatim>\<open>_schedule_job\<close> passes for an interval trigger.\<close>

definition interval_kwargs :: "(string \<rightharpoonup> yval) \<Rightarrow> (string \<rightharpoonup> yval)" where
  "interval_kwargs trigger_kwargs =
     (if trigger_kwargs ''seconds'' = None \<and> trigger_kwargs ''minutes'' = None \<and>
         trigger_kwargs ''hours'' = None
      then trigger_kwargs(''hours'' \<mapsto> YInt 1)
      else trigger_kwargs)"

text \<open>\<^verbatim>\<open>_schedule_job\<close>: the exception raised, if any, and the manager. The old
  registration is removed before the new one is made, so it is gone also when
  \<^verbatim>\<open>add_job\<close> raises.\<close>

definition schedule_job ::
  "trigger_check \<Rightarrow> manager \<Rightarrow> string \<Rightarrow> yval \<Rightarrow> (string \<rightharpoonup> yval) \<Rightarrow> bool \<Rightarrow>
   error option \<times> manager" where
  "schedule_job check m j stype sconfig en =
     (let m1 = m\<lparr> scheduler := remove_job (scheduler m) j \<rparr> in
      if \<not> en then (None, m1)
      else if stype = YStr ''cron''
      then (case add_job check (scheduler m1) ''cron'' j sconfig of
              Inl e \<Rightarrow> (Some e, m1)
            | Inr sch \<Rightarrow> (None, m1\<lparr> scheduler := sch \<rparr>))
      else (case add_job check (scheduler m1) ''interval'' j (interval_kwargs sconfig) of
              Inl e \<Rightarrow> (Some e, m1)
            | Inr sch \<Rightarrow> (None, m1\<lparr> scheduler := sch \<rparr>)))"

text \<open>
  The length in seconds of the period of an interval trigger: APScheduler's
  \<^verbatim>\<open>IntervalTrigger\<close> adds up its \<^verbatim>\<open>weeks\<close>, \<^verbatim>\<open>days\<close>, \<^verbatim>\<open>hours\<close>, \<^verbatim>\<open>minutes\<close> and
  \<^verbatim>\<open>seconds\<close> arguments, each 0 when not given, and takes one second when the sum
  is 0.
\<close>

definition unit_value :: "(string \<rightharpoonup> yval) \<Rightarrow> string \<Rightarrow> int" where
  "unit_value kwargs u = (case kwargs u of Some (YInt n) \<Rightarrow> n | _ \<Rightarrow> 0)"

definition interval_sum :: "(string \<rightharpoonup> yval) \<Rightarrow> int" where
  "interval_sum kwargs =
     unit_value kwargs ''weeks'' * 604800 + unit_value kwargs ''days'' * 86400 +
     unit_value kwargs ''hours'' * 3600 + unit_value kwargs ''minutes'' * 60 +
     unit_value kwargs ''seconds''"

definition interval_period :: "(string \<rightharpoonup> yval) \<Rightarrow> int" where
  "interval_period kwargs = (if interval_sum kwargs = 0 then 1 else interval_sum kwargs)"

text \<open>
  \<^verbatim>\<open>register_job\<close>: the exception raised, if any, and the manager. \<open>tsk\<close> and \<open>mt\<close> are
  the entries \<^verbatim>\<open>_task\<close> and \<^verbatim>\<open>_yaml_mtime\<close> the scanner adds to the configuration,
  \<open>now\<close> is the clock.

  For a job that is in the table, the \<^verbatim>\<open>UPDATE\<close> (which names neither \<^verbatim>\<open>enabled\<close> nor
  \<^verbatim>\<open>created_at\<close>) is committed, the stored \<^verbatim>\<open>enabled\<close> flag is read back, and
  \<^verbatim>\<open>_schedule_job\<close> is called after the connection is closed.

  For a job that is not in the table, the \<^verbatim>\<open>INSERT\<close> names twelve columns and gives
  thirteen values (twelve placeholders and the literal \<^verbatim>\<open>1\<close>). SQLite refuses the
  statement when it is prepared: \<^verbatim>\<open>execute\<close> raises \<^verbatim>\<open>OperationalError\<close>, nothing is
  inserted or committed, and \<^verbatim>\<open>_schedule_job\<close> is not reached.

  \<open>cfg\<close> is a manifest of the shape of the record; on a document of another shape
  the source raises before it changes anything, which \<open>scan_step\<close> below accounts for.
\<close>

definition schedule_of :: "manifest \<Rightarrow> (string \<rightharpoonup> yval)" where
  "schedule_of cfg = (case cfg_schedule cfg of None \<Rightarrow> Map.empty | Some sc \<Rightarrow> sc)"

definition schedule_type_of :: "manifest \<Rightarrow> yval" where
  "schedule_type_of cfg =
     (case schedule_of cfg ''type'' of None \<Rightarrow> YStr ''interval'' | Some v \<Rightarrow> v)"

definition schedule_config_of :: "manifest \<Rightarrow> (string \<rightharpoonup> yval)" where
  "schedule_config_of cfg = (schedule_of cfg)(''type'' := None)"

definition update_job_row :: "job_row \<Rightarrow> manifest \<Rightarrow> string \<Rightarrow> mtime \<Rightarrow> timestamp \<Rightarrow> job_row" where
  "update_job_row r cfg tsk mt now =
     r\<lparr> name := (case cfg_name cfg of None \<Rightarrow> tsk | Some n \<Rightarrow> n),
        description := (case cfg_description cfg of None \<Rightarrow> [] | Some d \<Rightarrow> d),
        schedule_type := schedule_type_of cfg,
        schedule_config := schedule_config_of cfg,
        entry_point := (case cfg_entry_point cfg of None \<Rightarrow> ''main.py'' | Some e \<Rightarrow> e),
        timeout := (case cfg_timeout cfg of None \<Rightarrow> 3600 | Some t \<Rightarrow> t),
        yaml_mtime := mt,
        updated_at := now \<rparr>"

definition register_job ::
  "trigger_check \<Rightarrow> manager \<Rightarrow> string \<Rightarrow> manifest \<Rightarrow> string \<Rightarrow> mtime \<Rightarrow> timestamp \<Rightarrow>
   error option \<times> manager" where
  "register_job check m j cfg tsk mt now =
     (case get_job m j of
        Some existing \<Rightarrow>
          (let m1 = m\<lparr> jobs := map (\<lambda>r. if jid r = j then update_job_row r cfg tsk mt now else r)
                                   (jobs m) \<rparr>;
               en = (case get_job m1 j of None \<Rightarrow> True | Some row \<Rightarrow> enabled row)
           in schedule_job check m1 j (schedule_type_of cfg) (schedule_config_of cfg) en)
      | None \<Rightarrow> (Some (OperationalError ''13 values for 12 columns''), m))"

section \<open>The manifest scanner\<close>

text \<open>
  What \<^verbatim>\<open>scan_jobs\<close> gets from the text of a manifest:
  \<^item> \<open>YamlError\<close>: \<^verbatim>\<open>yaml.safe_load\<close> raises; the source logs that and skips the job;
  \<^item> \<open>Malformed e\<close>: the text loads, but not to a manifest of the shape of the record:
    the document is not a mapping (an empty file loads to \<^verbatim>\<open>None\<close>), so the
    assignment of \<^verbatim>\<open>_task\<close> raises; or what it holds under \<^verbatim>\<open>schedule\<close> is not a
    mapping, so \<^verbatim>\<open>schedule.get\<close> raises; or it holds a value that \<^verbatim>\<open>json.dumps\<close>
    cannot write or SQLite cannot bind. The exception \<open>e\<close> is raised outside the
    \<^verbatim>\<open>try\<close> of the scan, before anything is changed;
  \<^item> \<open>Mapping cfg\<close>: the manifest \<open>cfg\<close>.
\<close>

datatype yaml_doc = YamlError | Malformed error | Mapping manifest

text \<open>
  \<^verbatim>\<open>scan_jobs\<close>. \<open>yaml_load\<close> reads the text of a manifest; \<open>clock j\<close> is the time at
  which job \<open>j\<close> is registered during this scan. The directory is listed in sorted
  order, each name once; hidden names are skipped. An exception raised for one
  directory is not caught: it ends the scan there, the directories after it are not
  looked at and \<^verbatim>\<open>_remove_stale_jobs\<close> is not called.
\<close>

definition listdir :: "(string \<times> task_bundle) list \<Rightarrow> string list" where
  "listdir d = sort (remdups (map fst d))"

definition hidden :: "string \<Rightarrow> bool" where
  "hidden t = (case t of [] \<Rightarrow> False | c # _ \<Rightarrow> c = CHR ''.'')"

definition manifest_file :: "manager \<Rightarrow> string \<Rightarrow> fs_file option" where
  "manifest_file m t =
     (case map_of (jobs_dir m) t of None \<Rightarrow> None | Some b \<Rightarrow> b ''job.yaml'')"

text \<open>The manifest the scanner finds for a name: that of a task directory that is
  not hidden.\<close>

definition scanned_manifest :: "manager \<Rightarrow> string \<Rightarrow> fs_file option" where
  "scanned_manifest m t = (if hidden t then None else manifest_file m t)"

definition needs_update :: "manager \<Rightarrow> string \<Rightarrow> mtime \<Rightarrow> bool" where
  "needs_update m j mt =
     (case get_job m j of None \<Rightarrow> True | Some row \<Rightarrow> yaml_mtime row \<noteq> mt)"

definition scan_step ::
  "trigger_check \<Rightarrow> (string \<Rightarrow> yaml_doc) \<Rightarrow> (string \<Rightarrow> timestamp) \<Rightarrow> manager \<Rightarrow> string \<Rightarrow>
   error option \<times> manager" where
  "scan_step check yaml_load clock m t =
     (case scanned_manifest m t of
        None \<Rightarrow> (None, m)
      | Some f \<Rightarrow>
          if \<not> needs_update m t (f_mtime f) then (None, m)
          else (case yaml_load (f_text f) of
                  YamlError \<Rightarrow> (None, m)
                | Malformed e \<Rightarrow> (Some e, m)
                | Mapping cfg \<Rightarrow> register_job check m t cfg t (f_mtime f) (clock t)))"

fun scan_loop ::
  "trigger_check \<Rightarrow> (string \<Rightarrow> yaml_doc) \<Rightarrow> (string \<Rightarrow> timestamp) \<Rightarrow> manager \<Rightarrow> string list \<Rightarrow>
   error option \<times> manager" where
  "scan_loop check yaml_load clock m [] = (None, m)"
| "scan_loop check yaml_load clock m (t # ts) =
     (case scan_step check yaml_load clock m t of
        (Some e, m') \<Rightarrow> (Some e, m')
      | (None, m') \<Rightarrow> scan_loop check yaml_load clock m' ts)"

definition found_job_ids :: "manager \<Rightarrow> string list" where
  "found_job_ids m = filter (\<lambda>t. scanned_manifest m t \<noteq> None) (listdir (jobs_dir m))"

text \<open>\<^verbatim>\<open>unregister_job\<close> on the connection of \<^verbatim>\<open>_remove_stale_jobs\<close>, and the loop of
  the latter over the identifiers selected before it starts.\<close>

definition unregister_job :: "manager \<Rightarrow> string \<Rightarrow> manager" where
  "unregister_job m j =
     m\<lparr> scheduler := remove_job (scheduler m) j,
        jobs := filter (\<lambda>r. jid r \<noteq> j) (jobs m) \<rparr>"

fun remove_stale_loop :: "string list \<Rightarrow> string list \<Rightarrow> manager \<Rightarrow> manager" where
  "remove_stale_loop found [] m = m"
| "remove_stale_loop found (j # js) m =
     (if j \<notin> set found then remove_stale_loop found js (unregister_job m j)
      else remove_stale_loop found js m)"

definition remove_stale_jobs :: "manager \<Rightarrow> string list \<Rightarrow> manager" where
  "remove_stale_jobs m found = remove_stale_loop found (map jid (jobs m)) m"

definition scan_jobs ::
  "trigger_check \<Rightarrow> (string \<Rightarrow> yaml_doc) \<Rightarrow> (string \<Rightarrow> timestamp) \<Rightarrow> manager \<Rightarrow>
   error option \<times> manager" where
  "scan_jobs check yaml_load clock m =
     (if \<not> jobs_dir_exists m then (None, m)
      else (case scan_loop check yaml_load clock m (listdir (jobs_dir m)) of
              (Some e, m') \<Rightarrow> (Some e, m')
            | (None, m') \<Rightarrow> (None, remove_stale_jobs m' (found_job_ids m))))"

section \<open>Run history\<close>

text \<open>
  \<^verbatim>\<open>get_runs\<close>: the rows of \<^verbatim>\<open>runs\<close>, each with the name of its job (\<open>None\<close> when the
  left join finds no job), filtered by job identifier and status when these are
  given and not empty, newest first, at most \<open>limit\<close> of them (SQLite takes a negative
  limit as no limit).
\<close>

definition run_matches :: "string option \<Rightarrow> string option \<Rightarrow> run_row \<Rightarrow> bool" where
  "run_matches jf sf r =
     ((case jf of None \<Rightarrow> True | Some j \<Rightarrow> j = [] \<or> job_id r = j) \<and>
      (case sf of None \<Rightarrow> True | Some s \<Rightarrow> s = [] \<or> status r = s))"

definition get_runs ::
  "manager \<Rightarrow> string option \<Rightarrow> string option \<Rightarrow> int \<Rightarrow> (run_row \<times> string option) list" where
  "get_runs m jf sf limit =
     (let rows = rev (sort_key run_id (filter (run_matches jf sf) (runs m)));
          rows' = (if limit < 0 then rows else take (nat limit) rows)
      in map (\<lambda>r. (r, map_option name (get_job m (job_id r)))) rows')"

section \<open>Staging and the idle-gated update\<close>

text \<open>
  A character is a code point below 256; \<^verbatim>\<open>str.isalnum\<close> holds of the digits and
  letters of ASCII and of the letters and numeric characters of Latin-1.
\<close>

definition isalnum :: "char \<Rightarrow> bool" where
  "isalnum c =
     (let n = (of_char c :: nat) in
      (48 \<le> n \<and> n \<le> 57) \<or> (65 \<le> n \<and> n \<le> 90) \<or> (97 \<le> n \<and> n \<le> 122) \<or>
      n = 170 \<or> n = 178 \<or> n = 179 \<or> n = 181 \<or> n = 185 \<or> n = 186 \<or>
      (188 \<le> n \<and> n \<le> 190) \<or> (192 \<le> n \<and> n \<le> 214) \<or> (216 \<le> n \<and> n \<le> 246) \<or>
      248 \<le> n)"

definition sanitize :: "string \<Rightarrow> string" where
  "sanitize tsk = filter (\<lambda>c. isalnum c \<or> c = CHR ''-'' \<or> c = CHR ''_'') tsk"

text \<open>\<^verbatim>\<open>Path(filename).name\<close>: the last component that is neither empty nor \<^verbatim>\<open>.\<close>,
  the empty text when there is none.\<close>

definition path_name :: "string \<Rightarrow> string" where
  "path_name p =
     (case filter (\<lambda>c. c \<noteq> [] \<and> c \<noteq> ''.'') (split_on CHR ''/'' p) of
        [] \<Rightarrow> []
      | cs \<Rightarrow> last cs)"

text \<open>
  The loop of \<^verbatim>\<open>save_job_files\<close> over the uploads (file name and content), writing
  into the fresh staging directory of the task at time \<open>now\<close>. Saving under the name
  \<^verbatim>\<open>..\<close> or under no name opens a directory for writing, which raises; the files
  saved before stay.
\<close>

fun save_files ::
  "mtime \<Rightarrow> (string \<times> string) list \<Rightarrow> task_bundle \<Rightarrow> bool \<Rightarrow> error option \<times> task_bundle \<times> bool" where
  "save_files now [] b has_yaml = (None, b, has_yaml)"
| "save_files now (u # us) b has_yaml =
     (if fst u = [] then save_files now us b has_yaml
      else
        (let filename = path_name (fst u) in
         if filename = [] \<or> filename = ''..''
         then (Some (OSError ''Is a directory''), b, has_yaml)
         else save_files now us (b(filename \<mapsto> \<lparr> f_mtime = now, f_text = snd u \<rparr>))
                (has_yaml \<or> filename = ''job.yaml'')))"

definition manifest_given :: "manifest option \<Rightarrow> bool" where
  "manifest_given job_config =
     (case job_config of
        None \<Rightarrow> False
      | Some cfg \<Rightarrow>
          cfg_name cfg \<noteq> None \<or> cfg_description cfg \<noteq> None \<or> cfg_entry_point cfg \<noteq> None \<or>
          cfg_timeout cfg \<noteq> None \<or> cfg_schedule cfg \<noteq> None)"

text \<open>The manifest \<^verbatim>\<open>save_job_files\<close> writes when the uploads had none and a
  configuration was given.\<close>

definition generate_manifest ::
  "(manifest \<Rightarrow> string) \<Rightarrow> mtime \<Rightarrow> task_bundle \<Rightarrow> bool \<Rightarrow> manifest option \<Rightarrow> task_bundle" where
  "generate_manifest yaml_dump now b has_yaml job_config =
     (case job_config of
        None \<Rightarrow> b
      | Some cfg \<Rightarrow>
          if \<not> has_yaml \<and> manifest_given job_config
          then b(''job.yaml'' \<mapsto> \<lparr> f_mtime = now, f_text = yaml_dump cfg \<rparr>)
          else b)"

definition exists_message :: "string \<Rightarrow> string" where
  "exists_message t =
     ''Job with name '' @ [CHR 0x27] @ t @ [CHR 0x27] @
     '' already exists. Please use a different name or edit the existing job.''"

text \<open>
  \<^verbatim>\<open>save_job_files\<close>: the error raised or the identifier returned, and the manager.
  \<open>yaml_dump\<close> is \<^verbatim>\<open>yaml.dump\<close>, \<open>now\<close> the modification time the written files get.
\<close>

definition save_job_files ::
  "(manifest \<Rightarrow> string) \<Rightarrow> mtime \<Rightarrow> manager \<Rightarrow> string \<Rightarrow> (string \<times> string) list \<Rightarrow>
   manifest option \<Rightarrow> (error + string) \<times> manager" where
  "save_job_files yaml_dump now m tsk uploads job_config =
     (let t = sanitize tsk in
      if t = [] then (Inl (ValueError ''Invalid task name''), m)
      else if map_of (jobs_dir m) t \<noteq> None \<and> map_of (staging_dir m) t = None
      then (Inl (ValueError (exists_message t)), m)
      else
        (case save_files now uploads Map.empty False of
           (Some e, b, has_yaml) \<Rightarrow>
             (Inl e, m\<lparr> jobs_dir_exists := True,
                        staging_dir := AList.update t b (staging_dir m) \<rparr>)
         | (None, b, has_yaml) \<Rightarrow>
             (Inr t, m\<lparr> jobs_dir_exists := True,
                        staging_dir := AList.update t
                            (generate_manifest yaml_dump now b has_yaml job_config)
                            (staging_dir m),
                        pending_updates := List.insert t (pending_updates m) \<rparr>)))"

text \<open>
  \<^verbatim>\<open>process_pending_updates\<close>. For one pending identifier: when the staged directory
  is missing the marker is dropped; otherwise the live directory is created if
  need be, \<^verbatim>\<open>copytree(..., dirs_exist_ok=True)\<close> writes every staged file over it
  (keeping the modification times), the staged directory is removed and the marker
  dropped. The trees are held in memory, where these three calls always succeed; the
  handler that logs their failure and keeps the marker has no counterpart here.
\<close>

definition promote :: "manager \<Rightarrow> string \<Rightarrow> manager" where
  "promote m t =
     (case map_of (staging_dir m) t of
        None \<Rightarrow> m\<lparr> pending_updates := removeAll t (pending_updates m) \<rparr>
      | Some b \<Rightarrow>
          m\<lparr> jobs_dir_exists := True,
             jobs_dir := AList.update t
                 ((case map_of (jobs_dir m) t of None \<Rightarrow> Map.empty | Some d \<Rightarrow> d) ++ b)
                 (jobs_dir m),
             staging_dir := AList.delete t (staging_dir m),
             pending_updates := removeAll t (pending_updates m) \<rparr>)"

text \<open>The function ends with a scan, whose exception, if it raises one, is that of
  the call; the promoted directories stay as they are then.\<close>

definition process_pending_updates ::
  "trigger_check \<Rightarrow> (string \<Rightarrow> yaml_doc) \<Rightarrow> (string \<Rightarrow> timestamp) \<Rightarrow> manager \<Rightarrow>
   error option \<times> manager" where
  "process_pending_updates check yaml_load clock m =
     (if pending_updates m = [] then (None, m)
      else if \<not> is_system_idle m then (None, m)
      else scan_jobs check yaml_load clock (foldl promote m (pending_updates m)))"

section \<open>Notions used in the statements and proofs\<close>

text \<open>The log files of a list of runs: the resolved path of every log path that is
  neither NULL nor empty.\<close>

definition log_targets :: "manager \<Rightarrow> run_row list \<Rightarrow> string list list" where
  "log_targets m rs =
     map (log_file_of m)
       (concat (map (\<lambda>r. case log_path r of
                             None \<Rightarrow> []
                           | Some rel \<Rightarrow> if rel = [] then [] else [rel]) rs))"

text \<open>Two managers that differ at most in the jobs table and the registrations.\<close>

definition registry_only :: "manager \<Rightarrow> manager \<Rightarrow> bool" where
  "registry_only m m' = (m' = m\<lparr> jobs := jobs m', scheduler := scheduler m' \<rparr>)"

text \<open>A name the scanner passes over: it finds no manifest for it, or the stored
  modification time is that of the manifest it finds.\<close>

definition passed_over :: "manager \<Rightarrow> string \<Rightarrow> bool" where
  "passed_over m t =
     (case scanned_manifest m t of
        None \<Rightarrow> True
      | Some f \<Rightarrow> \<not> needs_update m t (f_mtime f))"

text \<open>A registered job that is disabled and has no registration in the scheduler.\<close>

definition disabled_idle :: "manager \<Rightarrow> string \<Rightarrow> bool" where
  "disabled_idle m j =
     (scheduler m j = None \<and> (case get_job m j of None \<Rightarrow> False | Some r \<Rightarrow> \<not> enabled r))"

section \<open>Example states\<close>

text \<open>One job \<^verbatim>\<open>etl\<close>, registered from its manifest and firing every five minutes.\<close>

definition demo_job :: job_row where
  "demo_job =
     \<lparr> jid = ''etl'', task = ''etl'', name = ''etl'', description = [],
       schedule_type = YStr ''interval'', schedule_config = [''minutes'' \<mapsto> YInt 5],
       entry_point = ''main.py'', timeout = 3600, enabled = True, yaml_mtime = 100,
       created_at = ''2024-05-01T09:00:00'', updated_at = ''2024-05-01T09:00:00'' \<rparr>"

definition demo_trigger :: trigger where
  "demo_trigger =
     \<lparr> trig_kind = ''interval'', trig_kwargs = [''minutes'' \<mapsto> YInt 5],
       max_instances = 1, coalesce = True \<rparr>"

definition demo_manifest :: manifest where
  "demo_manifest =
     \<lparr> cfg_name = Some ''etl'', cfg_description = None, cfg_entry_point = None,
       cfg_timeout = None,
       cfg_schedule = Some [''type'' \<mapsto> YStr ''interval'', ''minutes'' \<mapsto> YInt 5] \<rparr>"

text \<open>A manifest whose interval schedule names \<^verbatim>\<open>hour\<close>, a keyword of the cron trigger
  that the interval trigger does not take.\<close>

definition hour_manifest :: manifest where
  "hour_manifest =
     \<lparr> cfg_name = None, cfg_description = None, cfg_entry_point = None,
       cfg_timeout = None,
       cfg_schedule = Some [''type'' \<mapsto> YStr ''interval'', ''hour'' \<mapsto> YInt 2] \<rparr>"

definition demo_yaml_load :: "string \<Rightarrow> yaml_doc" where
  "demo_yaml_load text =
     (if text = ''name: etl'' then Mapping demo_manifest
      else if text = ''schedule: {type: interval, hour: 2}'' then Mapping hour_manifest
      else if text = [] then Malformed (TypeError ''NoneType object does not support item assignment'')
      else YamlError)"

text \<open>A scheduler that refuses an interval trigger given the keyword \<^verbatim>\<open>hour\<close> and
  takes the other registrations of the examples.\<close>

definition demo_check :: trigger_check where
  "demo_check kind kwargs =
     (if kind = ''interval'' \<and> kwargs ''hour'' \<noteq> None
      then Some (TypeError ''unexpected keyword argument hour'')
      else None)"

definition demo_yaml_dump :: "manifest \<Rightarrow> string" where
  "demo_yaml_dump cfg = ''name: etl''"

definition demo_clock :: "string \<Rightarrow> timestamp" where
  "demo_clock j = ''2024-05-02T08:00:00''"

definition etl_bundle :: task_bundle where
  "etl_bundle = [''job.yaml'' \<mapsto> \<lparr> f_mtime = 100, f_text = ''name: etl'' \<rparr>,
                 ''main.py'' \<mapsto> \<lparr> f_mtime = 90, f_text = ''print(1)'' \<rparr>]"

definition report_bundle :: task_bundle where
  "report_bundle = [''main.py'' \<mapsto> \<lparr> f_mtime = 300, f_text = ''print(2)'' \<rparr>]"

definition live_manager :: manager where
  "live_manager =
     \<lparr> jobs = [demo_job], runs = [], last_run_id = 0,
       scheduler = [''etl'' \<mapsto> demo_trigger],
       job_locks = [(''etl'', False)], pending_updates = [],
       jobs_dir_exists = True, jobs_dir = [(''etl'', etl_bundle)], staging_dir = [],
       logs_dir = ''/app/logs'', files = Map.empty \<rparr>"

text \<open>The process died after \<^verbatim>\<open>_run_job\<close> had inserted its row and before it
  finalized it.\<close>

definition crashed_manager :: manager where
  "crashed_manager =
     insert_run live_manager ''etl'' ''2024-05-01T10:00:00'' ''etl/20240501_100000.log''"

text \<open>A bundle for a new task \<^verbatim>\<open>report\<close> is staged, once while \<^verbatim>\<open>etl\<close> is running
  and once while nothing runs.\<close>

definition busy_manager :: manager where
  "busy_manager =
     live_manager\<lparr> job_locks := [(''etl'', True)], pending_updates := [''report''],
                   staging_dir := [(''report'', report_bundle)] \<rparr>"

definition idle_manager :: manager where
  "idle_manager =
     live_manager\<lparr> pending_updates := [''report''],
                   staging_dir := [(''report'', report_bundle)] \<rparr>"

text \<open>A staged bundle named like the live job \<^verbatim>\<open>etl\<close>.\<close>

definition staged_manager :: manager where
  "staged_manager =
     live_manager\<lparr> pending_updates := [''etl''], staging_dir := [(''etl'', etl_bundle)] \<rparr>"

text \<open>A subprocess that exits with code 2.\<close>

definition failing_env :: run_env where
  "failing_env =
     \<lparr> env_started_at = ''2024-05-01T10:00:00'', env_log_name = ''20240501_100000.log'',
       env_proc = Exited 2 ''partial output'' ''boom'',
       env_finished_at = ''2024-05-01T10:00:03.250000'', env_duration = 325 \<rparr>"

text \<open>Three finished runs around the cutoff \<^verbatim>\<open>2024-04-01T00:00:00\<close>, with their log
  files; the oldest log file cannot be unlinked.\<close>

definition old_run :: run_row where
  "old_run =
     \<lparr> run_id = 1, job_id = ''etl'', status = ''success'',
       started_at = ''2024-03-31T23:59:59.999999'',
       finished_at = Some ''2024-04-01T00:00:01'', duration_seconds = Some 100,
       return_code = Some 0, log_path = Some ''etl/20240331_235959.log'',
       error_message = None \<rparr>"

definition boundary_run :: run_row where
  "boundary_run =
     old_run\<lparr> run_id := 2, started_at := ''2024-04-01T00:00:00'',
               log_path := Some ''etl/20240401_000000.log'' \<rparr>"

definition older_run :: run_row where
  "older_run =
     old_run\<lparr> run_id := 0, started_at := ''2024-03-01T07:00:00'',
               log_path := Some ''etl/20240301_070000.log'' \<rparr>"

definition retention_manager :: manager where
  "retention_manager =
     live_manager\<lparr> runs := [older_run, old_run, boundary_run], last_run_id := 2,
        files := [[''app'', ''logs'', ''etl'', ''20240301_070000.log''] \<mapsto> ''a'',
                  [''app'', ''logs'', ''etl'', ''20240331_235959.log''] \<mapsto> ''b'',
                  [''app'', ''logs'', ''etl'', ''20240401_000000.log''] \<mapsto> ''c''] \<rparr>"

definition locked_file :: "string list \<Rightarrow> bool" where
  "locked_file p = (p = [''app'', ''logs'', ''etl'', ''20240301_070000.log''])"

text \<open>The task directory of \<^verbatim>\<open>etl\<close> has gone and one run of it is on record; in the
  second state the whole jobs directory has gone.\<close>

definition history_run :: run_row where
  "history_run = old_run\<lparr> run_id := 7 \<rparr>"

definition vanished_manager :: manager where
  "vanished_manager = live_manager\<lparr> jobs_dir := [], runs := [history_run], last_run_id := 7 \<rparr>"

definition orphan_manager :: manager where
  "orphan_manager = vanished_manager\<lparr> jobs_dir_exists := False \<rparr>"

text \<open>The operator has disabled \<^verbatim>\<open>etl\<close>; afterwards its manifest was edited.\<close>

definition disabled_job :: job_row where
  "disabled_job = demo_job\<lparr> enabled := False \<rparr>"

definition edited_bundle :: task_bundle where
  "edited_bundle = etl_bundle(''job.yaml'' \<mapsto> \<lparr> f_mtime = 200, f_text = ''name: etl'' \<rparr>)"

definition disabled_manager :: manager where
  "disabled_manager =
     live_manager\<lparr> jobs := [disabled_job], scheduler := Map.empty,
                   jobs_dir := [(''etl'', edited_bundle)] \<rparr>"

text \<open>Two registered jobs: the manifest of \<^verbatim>\<open>etl\<close> has been edited and now names
  \<^verbatim>\<open>hour\<close> in its interval schedule; the task directory of \<^verbatim>\<open>gone\<close> has been
  removed.\<close>

definition gone_job :: job_row where
  "gone_job = demo_job\<lparr> jid := ''gone'', task := ''gone'', name := ''gone'' \<rparr>"

definition hour_bundle :: task_bundle where
  "hour_bundle =
     [''job.yaml'' \<mapsto> \<lparr> f_mtime = 200, f_text = ''schedule: {type: interval, hour: 2}'' \<rparr>]"

definition rejected_manager :: manager where
  "rejected_manager =
     live_manager\<lparr> jobs := [demo_job, gone_job],
                   scheduler := [''etl'' \<mapsto> demo_trigger, ''gone'' \<mapsto> demo_trigger],
                   jobs_dir := [(''etl'', hour_bundle)] \<rparr>"

section \<open>Lemmas\<close>

subsection \<open>Run rows\<close>

lemma run_id_less_next: "r \<in> set rs \<Longrightarrow> run_id r < Suc (foldr max (map run_id rs) k)"
  by (induction rs) auto

lemma finalize_old_rows:
  "map (\<lambda>r. if run_id r = next_run_id m then f r else r) (runs m) = runs m"
proof -
  have "run_id r \<noteq> next_run_id m" if "r \<in> set (runs m)" for r
    using run_id_less_next [OF that, of "last_run_id m"] by (simp add: next_run_id_def)
  then show ?thesis by (simp add: map_idI)
qed

lemma unlink_logs_files:
  "unlink_logs m uf rs fs p =
     (if p \<in> set (log_targets m rs) \<and> \<not> uf p then None else fs p)"
proof (induction rs arbitrary: fs)
  case Nil
  then show ?case by (simp add: log_targets_def)
next
  case (Cons r rs)
  show ?case
  proof (cases "log_path r")
    case None
    then show ?thesis using Cons.IH by (simp add: log_targets_def)
  next
    case (Some rel)
    then show ?thesis using Cons.IH by (auto simp: log_targets_def)
  qed
qed

lemma get_runs_rows:
  "runs m' = runs m \<Longrightarrow> map fst (get_runs m' jf sf lim) = map fst (get_runs m jf sf lim)"
  by (simp add: get_runs_def Let_def comp_def)

subsection \<open>What registration and scanning leave alone\<close>

lemma registry_only_refl: "registry_only m m"
  by (simp add: registry_only_def)

lemma registry_only_trans:
  assumes "registry_only m m1" and "registry_only m1 m2"
  shows "registry_only m m2"
proof -
  from assms(1) have a: "m1 = m\<lparr> jobs := jobs m1, scheduler := scheduler m1 \<rparr>"
    by (simp add: registry_only_def)
  from assms(2) have b: "m2 = m1\<lparr> jobs := jobs m2, scheduler := scheduler m2 \<rparr>"
    by (simp add: registry_only_def)
  have "m2 = m\<lparr> jobs := jobs m2, scheduler := scheduler m2 \<rparr>"
    by (subst b, subst a) simp
  then show ?thesis by (simp add: registry_only_def)
qed

lemma registry_only_fields:
  assumes "registry_only m m'"
  shows "runs m' = runs m" and "last_run_id m' = last_run_id m"
    and "job_locks m' = job_locks m" and "pending_updates m' = pending_updates m"
    and "jobs_dir_exists m' = jobs_dir_exists m" and "jobs_dir m' = jobs_dir m"
    and "staging_dir m' = staging_dir m" and "logs_dir m' = logs_dir m"
    and "files m' = files m"
proof -
  from assms have a: "m' = m\<lparr> jobs := jobs m', scheduler := scheduler m' \<rparr>"
    by (simp add: registry_only_def)
  show "runs m' = runs m" by (subst a) simp
  show "last_run_id m' = last_run_id m" by (subst a) simp
  show "job_locks m' = job_locks m" by (subst a) simp
  show "pending_updates m' = pending_updates m" by (subst a) simp
  show "jobs_dir_exists m' = jobs_dir_exists m" by (subst a) simp
  show "jobs_dir m' = jobs_dir m" by (subst a) simp
  show "staging_dir m' = staging_dir m" by (subst a) simp
  show "logs_dir m' = logs_dir m" by (subst a) simp
  show "files m' = files m" by (subst a) simp
qed

lemma schedule_job_registry: "registry_only m (snd (schedule_job check m j st sc en))"
  by (simp add: registry_only_def schedule_job_def Let_def split: sum.split)

lemma schedule_job_jobs: "jobs (snd (schedule_job check m j st sc en)) = jobs m"
  by (simp add: schedule_job_def Let_def split: sum.split)

lemma register_job_registry: "registry_only m (snd (register_job check m j cfg tsk mt now))"
proof (cases "get_job m j")
  case None
  then show ?thesis by (simp add: register_job_def registry_only_refl)
next
  case (Some r)
  have "registry_only m
          (m\<lparr> jobs := map (\<lambda>r. if jid r = j then update_job_row r cfg tsk mt now else r) (jobs m) \<rparr>)"
    by (simp add: registry_only_def)
  then show ?thesis
    using Some by (simp add: register_job_def Let_def registry_only_trans [OF _ schedule_job_registry])
qed

lemma scan_step_registry: "registry_only m (snd (scan_step check yl c m t))"
  by (simp add: scan_step_def registry_only_refl register_job_registry
        split: option.split yaml_doc.split)

lemma scan_loop_registry: "registry_only m (snd (scan_loop check yl c m ts))"
proof (induction ts arbitrary: m)
  case Nil
  show ?case by (simp add: registry_only_refl)
next
  case (Cons t ts)
  obtain e m' where s: "scan_step check yl c m t = (e, m')" by (cases "scan_step check yl c m t")
  have a: "registry_only m m'" using scan_step_registry [of m check yl c t] s by simp
  show ?case
  proof (cases e)
    case None
    have "registry_only m' (snd (scan_loop check yl c m' ts))" by (rule Cons.IH)
    with a have "registry_only m (snd (scan_loop check yl c m' ts))" by (rule registry_only_trans)
    then show ?thesis using s None by simp
  next
    case (Some x)
    then show ?thesis using s a by simp
  qed
qed

subsection \<open>Removing stale jobs\<close>

lemma remove_stale_loop_closed:
  "remove_stale_loop found js m =
     m\<lparr> jobs := filter (\<lambda>r. jid r \<in> set found \<or> jid r \<notin> set js) (jobs m),
        scheduler := (\<lambda>k. if k \<in> set js \<and> k \<notin> set found then None else scheduler m k) \<rparr>"
proof (induction js arbitrary: m)
  case Nil
  show ?case by simp
next
  case (Cons j js)
  show ?case
  proof (cases "j \<in> set found")
    case True
    have f: "filter (\<lambda>r. jid r \<in> set found \<or> jid r \<notin> set js) (jobs m) =
             filter (\<lambda>r. jid r \<in> set found \<or> jid r \<notin> set (j # js)) (jobs m)"
      using True by (intro filter_cong) auto
    have s: "(\<lambda>k. if k \<in> set js \<and> k \<notin> set found then None else scheduler m k) =
             (\<lambda>k. if k \<in> set (j # js) \<and> k \<notin> set found then None else scheduler m k)"
      using True by (intro ext) auto
    have "remove_stale_loop found (j # js) m = remove_stale_loop found js m"
      using True by simp
    also have "\<dots> = m\<lparr> jobs := filter (\<lambda>r. jid r \<in> set found \<or> jid r \<notin> set js) (jobs m),
        scheduler := (\<lambda>k. if k \<in> set js \<and> k \<notin> set found then None else scheduler m k) \<rparr>"
      by (rule Cons.IH)
    finally show ?thesis by (simp only: f s)
  next
    case False
    have f: "filter (\<lambda>r. jid r \<in> set found \<or> jid r \<notin> set js) (filter (\<lambda>r. jid r \<noteq> j) (jobs m)) =
             filter (\<lambda>r. jid r \<in> set found \<or> jid r \<notin> set (j # js)) (jobs m)"
      using False by (simp only: filter_filter) (intro filter_cong, auto)
    have s: "(\<lambda>k. if k \<in> set js \<and> k \<notin> set found then None else (remove_job (scheduler m) j) k) =
             (\<lambda>k. if k \<in> set (j # js) \<and> k \<notin> set found then None else scheduler m k)"
      using False by (intro ext) (auto simp: remove_job_def)
    have "remove_stale_loop found (j # js) m = remove_stale_loop found js (unregister_job m j)"
      using False by simp
    also have "\<dots> = (unregister_job m j)
      \<lparr> jobs := filter (\<lambda>r. jid r \<in> set found \<or> jid r \<notin> set js) (jobs (unregister_job m j)),
        scheduler := (\<lambda>k. if k \<in> set js \<and> k \<notin> set found then None
                           else scheduler (unregister_job m j) k) \<rparr>"
      by (rule Cons.IH)
    also have "\<dots> = m
      \<lparr> jobs := filter (\<lambda>r. jid r \<in> set found \<or> jid r \<notin> set js) (filter (\<lambda>r. jid r \<noteq> j) (jobs m)),
        scheduler := (\<lambda>k. if k \<in> set js \<and> k \<notin> set found then None
                           else (remove_job (scheduler m) j) k) \<rparr>"
      by (simp add: unregister_job_def cong: if_cong)
    finally show ?thesis by (simp only: f s)
  qed
qed

lemma remove_stale_jobs_closed:
  "remove_stale_jobs m found =
     m\<lparr> jobs := filter (\<lambda>r. jid r \<in> set found) (jobs m),
        scheduler := (\<lambda>k. if k \<in> jid ` set (jobs m) \<and> k \<notin> set found then None else scheduler m k) \<rparr>"
proof -
  have "filter (\<lambda>r. jid r \<in> set found \<or> jid r \<notin> set (map jid (jobs m))) (jobs m) =
        filter (\<lambda>r. jid r \<in> set found) (jobs m)"
    by (rule filter_cong) auto
  then show ?thesis
    by (simp add: remove_stale_jobs_def remove_stale_loop_closed)
qed

lemma remove_stale_jobs_registry: "registry_only m (remove_stale_jobs m found)"
  by (simp add: remove_stale_jobs_closed registry_only_def)

lemma scan_jobs_registry: "registry_only m (snd (scan_jobs check yl c m))"
proof -
  obtain e m' where s: "scan_loop check yl c m (listdir (jobs_dir m)) = (e, m')"
    by (cases "scan_loop check yl c m (listdir (jobs_dir m))")
  have a: "registry_only m m'"
    using scan_loop_registry [of m check yl c "listdir (jobs_dir m)"] s by simp
  have b: "registry_only m (remove_stale_jobs m' found)" for found
    by (rule registry_only_trans [OF a remove_stale_jobs_registry])
  show ?thesis
    using s a b by (cases e) (simp_all add: scan_jobs_def registry_only_refl)
qed

lemma listdir_set: "set (listdir d) = fst ` set d"
  by (simp add: listdir_def)

lemma scanned_in_found:
  "scanned_manifest m j \<noteq> None \<longleftrightarrow> j \<in> set (found_job_ids m)"
proof -
  have "scanned_manifest m j \<noteq> None \<Longrightarrow> j \<in> fst ` set (jobs_dir m)"
    by (auto simp: scanned_manifest_def manifest_file_def
          split: if_splits option.splits dest!: map_of_SomeD intro: rev_image_eqI)
  then show ?thesis by (auto simp: found_job_ids_def listdir_set)
qed

subsection \<open>One job at a time\<close>

lemma find_filter_conv: "find P xs = (case filter P xs of [] \<Rightarrow> None | x # _ \<Rightarrow> Some x)"
  by (induction xs) auto

lemma get_job_rows:
  "get_job m j = (case filter (\<lambda>r. jid r = j) (jobs m) of [] \<Rightarrow> None | x # _ \<Rightarrow> Some x)"
  by (simp add: get_job_def find_filter_conv)

lemma update_job_row_kept:
  "jid (update_job_row r cfg tsk mt now) = jid r"
  "enabled (update_job_row r cfg tsk mt now) = enabled r"
  "created_at (update_job_row r cfg tsk mt now) = created_at r"
  "task (update_job_row r cfg tsk mt now) = task r"
  "yaml_mtime (update_job_row r cfg tsk mt now) = mt"
  by (simp_all add: update_job_row_def)

lemma filter_map_other:
  assumes "t \<noteq> j" and "\<And>r. jid (g r) = jid r"
  shows "filter (\<lambda>r. jid r = j) (map (\<lambda>r. if jid r = t then g r else r) xs) =
         filter (\<lambda>r. jid r = j) xs"
  using assms by (induction xs) auto

lemma find_map_same:
  assumes "\<And>r. jid (g r) = jid r"
  shows "find (\<lambda>r. jid r = t) (map (\<lambda>r. if jid r = t then g r else r) xs) =
         map_option g (find (\<lambda>r. jid r = t) xs)"
  using assms by (induction xs) auto

lemma register_job_jobs:
  "jobs (snd (register_job check m j cfg tsk mt now)) =
     (case get_job m j of
        Some existing \<Rightarrow> map (\<lambda>r. if jid r = j then update_job_row r cfg tsk mt now else r) (jobs m)
      | None \<Rightarrow> jobs m)"
  by (simp add: register_job_def schedule_job_jobs Let_def split: option.split)

lemma register_job_get:
  assumes "get_job m j = Some r"
  shows "get_job (snd (register_job check m j cfg tsk mt now)) j =
           Some (update_job_row r cfg tsk mt now)"
proof -
  have "find (\<lambda>r. jid r = j)
          (map (\<lambda>r. if jid r = j then update_job_row r cfg tsk mt now else r) (jobs m)) =
        Some (update_job_row r cfg tsk mt now)"
    using assms by (simp add: find_map_same update_job_row_kept get_job_def)
  then show ?thesis
    using assms
    by (simp add: get_job_def [of "snd (register_job check m j cfg tsk mt now)"] register_job_jobs)
qed

lemma register_job_other_rows:
  assumes "t \<noteq> j"
  shows "filter (\<lambda>r. jid r = j) (jobs (snd (register_job check m t cfg tsk mt now))) =
         filter (\<lambda>r. jid r = j) (jobs m)"
  using assms
  by (simp add: register_job_jobs filter_map_other update_job_row_kept split: option.split)

lemma schedule_job_other:
  "t \<noteq> j \<Longrightarrow> scheduler (snd (schedule_job check m t st sc en)) j = scheduler m j"
  by (simp add: schedule_job_def remove_job_def add_job_def Let_def split: sum.split option.split)

lemma register_job_other_trigger:
  "t \<noteq> j \<Longrightarrow> scheduler (snd (register_job check m t cfg tsk mt now)) j = scheduler m j"
  by (simp add: register_job_def schedule_job_other Let_def split: option.split)

lemma scanned_manifest_registry:
  "registry_only m m' \<Longrightarrow> scanned_manifest m' t = scanned_manifest m t"
  by (simp add: scanned_manifest_def manifest_file_def registry_only_fields)

lemma scan_step_other:
  assumes "t \<noteq> j"
  shows "filter (\<lambda>r. jid r = j) (jobs (snd (scan_step check yl c m t))) =
         filter (\<lambda>r. jid r = j) (jobs m)"
    and "scheduler (snd (scan_step check yl c m t)) j = scheduler m j"
  using assms
  by (simp_all add: scan_step_def register_job_other_rows register_job_other_trigger
        split: option.split yaml_doc.split)

lemma schedule_job_trigger:
  "scheduler (snd (schedule_job check m j st sc en)) j =
     (if \<not> en then None
      else if st = YStr ''cron''
      then (case check ''cron'' sc of
              Some e \<Rightarrow> None
            | None \<Rightarrow> Some \<lparr> trig_kind = ''cron'', trig_kwargs = sc,
                             max_instances = 1, coalesce = True \<rparr>)
      else (case check ''interval'' (interval_kwargs sc) of
              Some e \<Rightarrow> None
            | None \<Rightarrow> Some \<lparr> trig_kind = ''interval'', trig_kwargs = interval_kwargs sc,
                             max_instances = 1, coalesce = True \<rparr>))"
  by (simp add: schedule_job_def remove_job_def add_job_def Let_def split: option.split)

lemma register_job_existing_trigger:
  assumes "get_job m j = Some row"
  shows "scheduler (snd (register_job check m j cfg tsk mt now)) j =
           scheduler (snd (schedule_job check m j (schedule_type_of cfg) (schedule_config_of cfg)
                             (enabled row))) j"
proof -
  have "get_job (m\<lparr> jobs := map (\<lambda>r. if jid r = j then update_job_row r cfg tsk mt now else r) (jobs m) \<rparr>) j
        = Some (update_job_row row cfg tsk mt now)"
    using assms by (simp add: get_job_def find_map_same update_job_row_kept)
  then show ?thesis
    using assms by (simp add: register_job_def Let_def schedule_job_trigger update_job_row_kept)
qed

lemma remove_stale_keeps_found:
  assumes "j \<in> set found"
  shows "filter (\<lambda>r. jid r = j) (jobs (remove_stale_jobs m found)) = filter (\<lambda>r. jid r = j) (jobs m)"
    and "scheduler (remove_stale_jobs m found) j = scheduler m j"
proof -
  have "filter (\<lambda>r. jid r = j) (filter (\<lambda>r. jid r \<in> set found) (jobs m)) =
        filter (\<lambda>r. jid r = j) (jobs m)"
    using assms by (simp only: filter_filter) (intro filter_cong, auto)
  then show "filter (\<lambda>r. jid r = j) (jobs (remove_stale_jobs m found)) =
             filter (\<lambda>r. jid r = j) (jobs m)"
    by (simp add: remove_stale_jobs_closed)
  show "scheduler (remove_stale_jobs m found) j = scheduler m j"
    using assms by (simp add: remove_stale_jobs_closed)
qed

lemma remove_stale_drops_missing:
  assumes "j \<notin> set found" and "filter (\<lambda>r. jid r = j) (jobs m) \<noteq> []"
  shows "get_job (remove_stale_jobs m found) j = None"
    and "scheduler (remove_stale_jobs m found) j = None"
proof -
  have "filter (\<lambda>r. jid r = j) (filter (\<lambda>r. jid r \<in> set found) (jobs m)) = []"
    using assms(1) by (auto simp: filter_empty_conv)
  then show "get_job (remove_stale_jobs m found) j = None"
    by (simp add: get_job_rows remove_stale_jobs_closed)
  from assms(2) have "j \<in> jid ` set (jobs m)"
    by (auto simp: filter_empty_conv)
  then show "scheduler (remove_stale_jobs m found) j = None"
    using assms(1) by (simp add: remove_stale_jobs_closed)
qed

subsection \<open>Names the scanner passes over\<close>

lemma passed_over_noop: "passed_over m t \<Longrightarrow> scan_step check yl c m t = (None, m)"
  by (auto simp: passed_over_def scan_step_def split: option.splits)

lemma passed_over_cong:
  assumes "registry_only m m'"
    and "filter (\<lambda>r. jid r = t) (jobs m') = filter (\<lambda>r. jid r = t) (jobs m)"
  shows "passed_over m' t = passed_over m t"
proof -
  have "needs_update m' t x = needs_update m t x" for x
    using assms(2) by (simp add: needs_update_def get_job_rows)
  then show ?thesis
    using assms(1) by (simp add: passed_over_def scanned_manifest_registry split: option.split)
qed

lemma passed_over_step:
  assumes "passed_over m t"
  shows "passed_over (snd (scan_step check yl c m t')) t"
proof (cases "t' = t")
  case True
  then show ?thesis using assms by (simp add: passed_over_noop)
next
  case False
  have "passed_over (snd (scan_step check yl c m t')) t = passed_over m t"
    by (rule passed_over_cong [OF scan_step_registry scan_step_other(1) [OF False]])
  with assms show ?thesis by simp
qed

lemma scan_loop_passed_over_keeps:
  "passed_over m j \<Longrightarrow>
     filter (\<lambda>r. jid r = j) (jobs (snd (scan_loop check yl c m ts))) = filter (\<lambda>r. jid r = j) (jobs m) \<and>
     scheduler (snd (scan_loop check yl c m ts)) j = scheduler m j"
proof (induction ts arbitrary: m)
  case Nil
  show ?case by simp
next
  case (Cons x xs)
  obtain e m' where s: "scan_step check yl c m x = (e, m')" by (cases "scan_step check yl c m x")
  have keep: "filter (\<lambda>r. jid r = j) (jobs m') = filter (\<lambda>r. jid r = j) (jobs m) \<and>
        scheduler m' j = scheduler m j"
  proof (cases "x = j")
    case True
    with Cons.prems s show ?thesis by (simp add: passed_over_noop)
  next
    case False
    then show ?thesis using scan_step_other [OF False, of check yl c m] s by simp
  qed
  have p: "passed_over m' j"
    using passed_over_step [OF Cons.prems, of check yl c x] s by simp
  show ?case
  proof (cases e)
    case None
    then show ?thesis using Cons.IH [OF p] keep s by simp
  next
    case (Some err)
    then show ?thesis using keep s by simp
  qed
qed

text \<open>A job whose manifest is found with the stored modification time keeps its row and
  its registration through a scan, whether the scan ends or is cut short.\<close>

lemma scan_jobs_keeps_unchanged_manifest:
  assumes "scanned_manifest m j = Some f" and "get_job m j = Some row"
    and "yaml_mtime row = f_mtime f"
  shows "get_job (snd (scan_jobs check yl c m)) j = Some row"
    and "scheduler (snd (scan_jobs check yl c m)) j = scheduler m j"
proof -
  have po: "passed_over m j" using assms by (simp add: passed_over_def needs_update_def)
  from assms(1) have inf: "j \<in> set (found_job_ids m)" using scanned_in_found [of m j] by simp
  obtain e m' where s: "scan_loop check yl c m (listdir (jobs_dir m)) = (e, m')"
    by (cases "scan_loop check yl c m (listdir (jobs_dir m))")
  have k: "filter (\<lambda>r. jid r = j) (jobs m') = filter (\<lambda>r. jid r = j) (jobs m)"
    "scheduler m' j = scheduler m j"
    using scan_loop_passed_over_keeps [OF po, of check yl c "listdir (jobs_dir m)"] s by simp_all
  have rows: "filter (\<lambda>r. jid r = j) (jobs (snd (scan_jobs check yl c m))) =
              filter (\<lambda>r. jid r = j) (jobs m)"
    using s k remove_stale_keeps_found(1) [OF inf, of m']
    by (cases e) (simp_all add: scan_jobs_def)
  then show "get_job (snd (scan_jobs check yl c m)) j = Some row"
    using assms(2) by (simp add: get_job_rows)
  show "scheduler (snd (scan_jobs check yl c m)) j = scheduler m j"
    using s k remove_stale_keeps_found(2) [OF inf, of m']
    by (cases e) (simp_all add: scan_jobs_def)
qed

subsection \<open>Disabled jobs\<close>

lemma disabled_idle_step:
  assumes "disabled_idle m j"
  shows "disabled_idle (snd (scan_step check yl c m t)) j"
proof (cases "t = j")
  case False
  then show ?thesis
    using assms scan_step_other [OF False, of check yl c m]
    by (simp add: disabled_idle_def get_job_rows)
next
  case True
  from assms obtain r where r: "get_job m j = Some r" "\<not> enabled r" "scheduler m j = None"
    by (auto simp: disabled_idle_def split: option.splits)
  have "disabled_idle (snd (register_job check m j cfg tsk mt now)) j" for cfg tsk mt now
    using r
    by (simp add: disabled_idle_def register_job_get register_job_existing_trigger
          schedule_job_trigger update_job_row_kept)
  then show ?thesis
    using True assms by (simp add: scan_step_def split: option.split yaml_doc.split)
qed

lemma disabled_idle_loop:
  "disabled_idle m j \<Longrightarrow> disabled_idle (snd (scan_loop check yl c m ts)) j"
proof (induction ts arbitrary: m)
  case Nil
  then show ?case by simp
next
  case (Cons x xs)
  obtain e m' where s: "scan_step check yl c m x = (e, m')" by (cases "scan_step check yl c m x")
  have d: "disabled_idle m' j"
    using disabled_idle_step [OF Cons.prems, of check yl c x] s by simp
  show ?case
    using s d Cons.IH [OF d] by (cases e) simp_all
qed

subsection \<open>Promotion\<close>

lemma idle_loop_iff: "is_system_idle_loop ls \<longleftrightarrow> True \<notin> snd ` set ls"
  by (induction ls) auto

lemma promote_jobs_dir:
  "map_of (jobs_dir (promote m x)) t =
     (if t = x
      then (case map_of (staging_dir m) x of
              None \<Rightarrow> map_of (jobs_dir m) x
            | Some b \<Rightarrow> Some ((case map_of (jobs_dir m) x of None \<Rightarrow> Map.empty | Some d \<Rightarrow> d) ++ b))
      else map_of (jobs_dir m) t)"
  by (simp add: promote_def update_conv' split: option.split)

lemma promote_staging_dir:
  "map_of (staging_dir (promote m x)) t = (if t = x then None else map_of (staging_dir m) t)"
  by (simp add: promote_def delete_conv' split: option.split)

lemma promote_pending:
  "pending_updates (promote m x) = removeAll x (pending_updates m)"
  by (simp add: promote_def split: option.split)

lemma promote_all_staging_dir:
  "map_of (staging_dir (foldl promote m ts)) t =
     (if t \<in> set ts then None else map_of (staging_dir m) t)"
  by (induction ts arbitrary: m) (simp_all add: promote_staging_dir)

lemma promote_all_jobs_dir:
  "map_of (jobs_dir (foldl promote m ts)) t =
     (if t \<in> set ts
      then (case map_of (staging_dir m) t of
              None \<Rightarrow> map_of (jobs_dir m) t
            | Some b \<Rightarrow> Some ((case map_of (jobs_dir m) t of None \<Rightarrow> Map.empty | Some d \<Rightarrow> d) ++ b))
      else map_of (jobs_dir m) t)"
proof (induction ts arbitrary: m)
  case Nil
  show ?case by simp
next
  case (Cons x xs)
  show ?case
    by (simp add: Cons.IH [of "promote m x"] promote_jobs_dir promote_staging_dir
          split: option.split)
qed

lemma promote_all_pending:
  "set (pending_updates (foldl promote m ts)) = set (pending_updates m) - set ts"
  by (induction ts arbitrary: m) (auto simp: promote_pending)

section \<open>The claims\<close>

subsection \<open>C1: terminal runs and crash recovery\<close>

text \<open>
  C1. The claim: every run in a terminal state (\<^verbatim>\<open>success\<close>, \<^verbatim>\<open>failed\<close>, \<^verbatim>\<open>timeout\<close>)
  has a finish timestamp and a duration, and so has a run that the recovery at start-up
  moves from \<^verbatim>\<open>running\<close> to \<^verbatim>\<open>failed\<close>. The final update of \<^verbatim>\<open>_run_job\<close> sets both
  columns, but the update of \<^verbatim>\<open>_cleanup_stale_runs\<close> sets only the status, the message
  and the finish timestamp: the run left behind by a crash becomes \<^verbatim>\<open>failed\<close> with a
  finish timestamp and with the duration still NULL.
\<close>

theorem cleanup_stale_runs_duration_null:
  "map (\<lambda>r. (status r, finished_at r, duration_seconds r))
     (runs (cleanup_stale_runs crashed_manager ''2024-05-01T10:05:00'')) =
   [(''failed'', Some ''2024-05-01T10:05:00'', None)]"
  by (simp add: cleanup_stale_runs_def crashed_manager_def insert_run_def live_manager_def)

subsection \<open>C2: reading a log outside the logs root\<close>

text \<open>
  C2. The claim: a path that resolves outside the logs root gets "not found", never
  file content. The source compares the two path texts with \<^verbatim>\<open>startswith\<close>, so a
  sibling directory whose name begins with the root's name passes the test: with the
  root \<^verbatim>\<open>/app/logs\<close>, the path \<^verbatim>\<open>../logs_backup/x.log\<close> resolves to
  \<^verbatim>\<open>/app/logs_backup/x.log\<close>, which lies outside the root, and its content is returned.
\<close>

theorem get_log_content_sibling_prefix:
  "\<not> inside_logs_root sibling_manager ''../logs_backup/x.log'' \<and>
   get_log_content sibling_manager ''../logs_backup/x.log'' = Some ''secret''"
  by (simp add: inside_logs_root_def get_log_content_def sibling_manager_def
      path_join_def is_absolute_def resolve_def resolve_step_def)

subsection \<open>C3: promotion waits for an idle system\<close>

text \<open>
  C3. While any per-job lock is held, \<^verbatim>\<open>process_pending_updates\<close> returns without an
  exception and changes nothing at all: the jobs directory, the staging directory and
  the pending set are as before. When no lock is held and the staged directory of a
  pending identifier exists, the staged files are written over the live task directory
  (files already there and not staged stay), the staged directory is gone and the
  identifier is no longer pending.
\<close>

theorem process_pending_updates_idle_gate:
  "((j, True) \<in> set (job_locks m) \<longrightarrow> process_pending_updates check yl c m = (None, m)) \<and>
   (is_system_idle m \<and> t \<in> set (pending_updates m) \<and> map_of (staging_dir m) t = Some b \<longrightarrow>
      map_of (jobs_dir (snd (process_pending_updates check yl c m))) t =
        Some ((case map_of (jobs_dir m) t of None \<Rightarrow> Map.empty | Some d \<Rightarrow> d) ++ b) \<and>
      map_of (staging_dir (snd (process_pending_updates check yl c m))) t = None \<and>
      t \<notin> set (pending_updates (snd (process_pending_updates check yl c m))))"
proof (intro conjI impI)
  assume "(j, True) \<in> set (job_locks m)"
  then have "\<not> is_system_idle m"
    by (force simp: is_system_idle_def idle_loop_iff)
  then show "process_pending_updates check yl c m = (None, m)"
    by (simp add: process_pending_updates_def)
next
  assume a: "is_system_idle m \<and> t \<in> set (pending_updates m) \<and> map_of (staging_dir m) t = Some b"
  have p: "process_pending_updates check yl c m =
           scan_jobs check yl c (foldl promote m (pending_updates m))"
    using a by (auto simp: process_pending_updates_def)
  note f = registry_only_fields
             [OF scan_jobs_registry [of "foldl promote m (pending_updates m)" check yl c]]
  show "map_of (jobs_dir (snd (process_pending_updates check yl c m))) t =
        Some ((case map_of (jobs_dir m) t of None \<Rightarrow> Map.empty | Some d \<Rightarrow> d) ++ b)"
    using a by (simp add: p f promote_all_jobs_dir)
  show "map_of (staging_dir (snd (process_pending_updates check yl c m))) t = None"
    using a by (simp add: p f promote_all_staging_dir)
  show "t \<notin> set (pending_updates (snd (process_pending_updates check yl c m)))"
    using a by (simp add: p f promote_all_pending)
qed

text \<open>
  At \<open>busy_manager\<close> the lock of \<^verbatim>\<open>etl\<close> is held and nothing changes; at
  \<open>idle_manager\<close> the staged bundle of \<^verbatim>\<open>report\<close> becomes its live directory.
\<close>

theorem process_pending_updates_idle_gate_witness:
  "(''etl'', True) \<in> set (job_locks busy_manager) \<and>
   process_pending_updates demo_check demo_yaml_load demo_clock busy_manager = (None, busy_manager) \<and>
   is_system_idle idle_manager \<and> ''report'' \<in> set (pending_updates idle_manager) \<and>
   map_of (staging_dir idle_manager) ''report'' = Some report_bundle \<and>
   map_of (jobs_dir (snd (process_pending_updates demo_check demo_yaml_load demo_clock idle_manager)))
     ''report'' = Some report_bundle \<and>
   map_of (staging_dir (snd (process_pending_updates demo_check demo_yaml_load demo_clock idle_manager)))
     ''report'' = None \<and>
   ''report'' \<notin> set (pending_updates
                       (snd (process_pending_updates demo_check demo_yaml_load demo_clock idle_manager)))"
proof -
  have lock: "(''etl'', True) \<in> set (job_locks busy_manager)"
    by (simp add: busy_manager_def)
  have idle: "is_system_idle idle_manager \<and> ''report'' \<in> set (pending_updates idle_manager) \<and>
              map_of (staging_dir idle_manager) ''report'' = Some report_bundle"
    by (simp add: idle_manager_def live_manager_def is_system_idle_def)
  have live: "map_of (jobs_dir idle_manager) ''report'' = None"
    by (simp add: idle_manager_def live_manager_def)
  show ?thesis
    using lock idle live
      process_pending_updates_idle_gate [of "''etl''" busy_manager demo_check demo_yaml_load
        demo_clock "''report''" report_bundle]
      process_pending_updates_idle_gate [of "''etl''" idle_manager demo_check demo_yaml_load
        demo_clock "''report''" report_bundle]
    by simp
qed

subsection \<open>C4: the hourly default of an interval trigger\<close>

text \<open>
  C4. The claim: an interval schedule that names any of seconds, minutes, hours or days
  is registered with exactly that period, and the default of one hour is used only when
  no unit is named. \<^verbatim>\<open>_schedule_job\<close> tests for \<^verbatim>\<open>seconds\<close>, \<^verbatim>\<open>minutes\<close> and \<^verbatim>\<open>hours\<close>
  only, so a schedule of two days gets \<^verbatim>\<open>hours=1\<close> added and fires every 49 hours
  (176400 seconds) instead of every 48 (172800 seconds).
\<close>

theorem schedule_job_days_only:
  "(case scheduler (snd (schedule_job demo_check live_manager ''etl'' (YStr ''interval'')
                           [''days'' \<mapsto> YInt 2] True)) ''etl'' of
      None \<Rightarrow> None
    | Some tr \<Rightarrow> Some (trig_kind tr, interval_period (trig_kwargs tr))) = Some (''interval'', 176400) \<and>
   interval_period [''days'' \<mapsto> YInt 2] = 172800"
  by (simp add: schedule_job_def remove_job_def add_job_def demo_check_def interval_kwargs_def
        Let_def interval_period_def interval_sum_def unit_value_def)

subsection \<open>C5: staging under the name of a live job\<close>

text \<open>
  C5, as amended. \<^verbatim>\<open>save_job_files\<close> raises a validation error and leaves the manager
  as it is when sanitizing the task name leaves nothing, and when the sanitized name is
  that of a live task directory and no staged directory of that name exists. The
  sanitized name consists of alphanumeric characters, hyphens and underscores.
\<close>

theorem save_job_files_rejects:
  "(sanitize tsk = [] \<longrightarrow>
      save_job_files yd now m tsk ups jc = (Inl (ValueError ''Invalid task name''), m)) \<and>
   (sanitize tsk \<noteq> [] \<and> map_of (jobs_dir m) (sanitize tsk) \<noteq> None \<and>
    map_of (staging_dir m) (sanitize tsk) = None \<longrightarrow>
      save_job_files yd now m tsk ups jc = (Inl (ValueError (exists_message (sanitize tsk))), m)) \<and>
   list_all (\<lambda>ch. isalnum ch \<or> ch = CHR ''-'' \<or> ch = CHR ''_'') (sanitize tsk)"
  by (auto simp: save_job_files_def Let_def sanitize_def list_all_iff)

text \<open>
  At \<open>live_manager\<close> the name \<^verbatim>\<open>../\<close> sanitizes to nothing, and \<^verbatim>\<open>e t/l\<close> sanitizes to
  the name of the live job \<^verbatim>\<open>etl\<close>, of which nothing is staged.
\<close>

theorem save_job_files_rejects_witness:
  "sanitize ''../'' = [] \<and>
   save_job_files demo_yaml_dump 500 live_manager ''../'' [(''main.py'', ''print(2)'')] None =
     (Inl (ValueError ''Invalid task name''), live_manager) \<and>
   sanitize ''e t/l'' = ''etl'' \<and> map_of (jobs_dir live_manager) ''etl'' \<noteq> None \<and>
   map_of (staging_dir live_manager) ''etl'' = None \<and>
   save_job_files demo_yaml_dump 500 live_manager ''e t/l'' [(''main.py'', ''print(2)'')] None =
     (Inl (ValueError (exists_message ''etl'')), live_manager)"
proof -
  have a: "sanitize ''../'' = []" by (simp add: sanitize_def isalnum_def)
  have b: "sanitize ''e t/l'' = ''etl''" by (simp add: sanitize_def isalnum_def)
  have c: "map_of (jobs_dir live_manager) ''etl'' \<noteq> None \<and> map_of (staging_dir live_manager) ''etl'' = None"
    by (simp add: live_manager_def)
  show ?thesis
    using a b c
      save_job_files_rejects [of "''../''" demo_yaml_dump 500 live_manager "[(''main.py'', ''print(2)'')]" None]
      save_job_files_rejects [of "''e t/l''" demo_yaml_dump 500 live_manager "[(''main.py'', ''print(2)'')]" None]
    by simp
qed

text \<open>
  The claim as stated, that every name of a live task directory is refused, fails: the
  guard of the source also asks that nothing of that name be staged. At
  \<open>staged_manager\<close>, where \<^verbatim>\<open>etl\<close> is live and a bundle of that name is staged, the
  upload is accepted and replaces the staged bundle.
\<close>

theorem save_job_files_staged_overwrite:
  "map_of (jobs_dir staged_manager) (sanitize ''etl'') \<noteq> None \<and>
   fst (save_job_files demo_yaml_dump 500 staged_manager ''etl'' [(''main.py'', ''print(2)'')] None) =
     Inr ''etl'' \<and>
   (case map_of (staging_dir staged_manager) ''etl'' of
      None \<Rightarrow> None | Some b \<Rightarrow> map_option f_text (b ''main.py'')) = Some ''print(1)'' \<and>
   (case map_of (staging_dir (snd (save_job_files demo_yaml_dump 500 staged_manager ''etl''
                                     [(''main.py'', ''print(2)'')] None))) ''etl'' of
      None \<Rightarrow> None | Some b \<Rightarrow> map_option f_text (b ''main.py'')) = Some ''print(2)''"
  by (simp add: save_job_files_def sanitize_def isalnum_def staged_manager_def live_manager_def
        etl_bundle_def path_name_def generate_manifest_def Let_def)

subsection \<open>C6: the outcome of a subprocess that exits\<close>

text \<open>
  C6. When the subprocess of an enabled job returns, \<^verbatim>\<open>_run_job\<close> adds exactly one run,
  which it finalizes: its status is \<^verbatim>\<open>success\<close> if and only if the exit code is zero;
  otherwise its status is \<^verbatim>\<open>failed\<close> and its error message is the first 500 characters
  of the captured standard error, or of the standard output when the standard error is
  empty. The run holds the exit code, the finish timestamp and the duration.
\<close>

theorem run_job_exit_status:
  assumes "get_job m j = Some job" and "enabled job" and "env_proc env = Exited rc out err"
  shows "\<exists>r. runs (run_job jobs_root m j env) = runs m @ [r] \<and>
             run_id r = next_run_id m \<and> job_id r = j \<and>
             (status r = ''success'' \<longleftrightarrow> rc = 0) \<and>
             (rc \<noteq> 0 \<longrightarrow> status r = ''failed'' \<and>
                error_message r = Some (take 500 (if err \<noteq> [] then err else out))) \<and>
             return_code r = Some rc \<and>
             finished_at r = Some (env_finished_at env) \<and>
             duration_seconds r = Some (env_duration env)"
  using assms
  by (simp add: run_job_def run_outcome_def insert_run_def finalize_run_def Let_def
      finalize_old_rows)

text \<open>
  At \<open>live_manager\<close>, an exit with code 2 and \<^verbatim>\<open>boom\<close> on the standard error.
\<close>

theorem run_job_exit_status_witness:
  "get_job live_manager ''etl'' = Some demo_job \<and> enabled demo_job \<and>
   env_proc failing_env = Exited 2 ''partial output'' ''boom'' \<and>
   (\<exists>r. runs (run_job ''/app/jobs'' live_manager ''etl'' failing_env) = [r] \<and>
        run_id r = 1 \<and> status r = ''failed'' \<and> error_message r = Some ''boom'' \<and>
        return_code r = Some 2 \<and> finished_at r = Some ''2024-05-01T10:00:03.250000'' \<and>
        duration_seconds r = Some 325)"
proof -
  have a: "get_job live_manager ''etl'' = Some demo_job"
    by (simp add: get_job_def live_manager_def demo_job_def)
  have b: "enabled demo_job" by (simp add: demo_job_def)
  have c: "env_proc failing_env = Exited 2 ''partial output'' ''boom''"
    by (simp add: failing_env_def)
  have d: "runs live_manager = []" "next_run_id live_manager = 1"
    by (simp_all add: live_manager_def next_run_id_def)
  have e: "env_finished_at failing_env = ''2024-05-01T10:00:03.250000''" "env_duration failing_env = 325"
    by (simp_all add: failing_env_def)
  from run_job_exit_status [OF a b c, of "''/app/jobs''"] a b c show ?thesis
    by (auto simp: d e)
qed

subsection \<open>C7: retention\<close>

text \<open>
  C7. \<^verbatim>\<open>cleanup_old_logs\<close> keeps exactly the runs whose start timestamp is not before
  the cutoff, so it deletes exactly those strictly older, and a run that started at the
  cutoff stays. Of the files, it removes the log files of the deleted runs whose
  \<^verbatim>\<open>unlink\<close> does not raise, and no other; whether an \<^verbatim>\<open>unlink\<close> raises has no
  influence on the rows or on the other files.
\<close>

theorem cleanup_old_logs_exact:
  "runs (cleanup_old_logs m cutoff unlink_fails) = filter (\<lambda>r. cutoff \<le> started_at r) (runs m) \<and>
   (\<forall>r \<in> set (runs m). started_at r = cutoff \<longrightarrow>
        r \<in> set (runs (cleanup_old_logs m cutoff unlink_fails))) \<and>
   (\<forall>p. files (cleanup_old_logs m cutoff unlink_fails) p =
        (if p \<in> set (log_targets m (filter (\<lambda>r. started_at r < cutoff) (runs m))) \<and> \<not> unlink_fails p
         then None else files m p))"
proof -
  have eq: "(\<lambda>r. \<not> started_at r < cutoff) = (\<lambda>r. cutoff \<le> started_at r)"
    by (auto simp: not_less)
  show ?thesis
    by (simp add: cleanup_old_logs_def unlink_logs_files eq)
qed

text \<open>
  At \<open>retention_manager\<close> two runs are older than the cutoff and one started at the
  cutoff; the log file of the oldest cannot be unlinked and stays, while its row goes.
\<close>

theorem cleanup_old_logs_exact_witness:
  "boundary_run \<in> set (runs retention_manager) \<and>
   started_at boundary_run = ''2024-04-01T00:00:00'' \<and>
   runs (cleanup_old_logs retention_manager ''2024-04-01T00:00:00'' locked_file) = [boundary_run] \<and>
   files (cleanup_old_logs retention_manager ''2024-04-01T00:00:00'' locked_file)
     [''app'', ''logs'', ''etl'', ''20240301_070000.log''] = Some ''a'' \<and>
   files (cleanup_old_logs retention_manager ''2024-04-01T00:00:00'' locked_file)
     [''app'', ''logs'', ''etl'', ''20240331_235959.log''] = None \<and>
   files (cleanup_old_logs retention_manager ''2024-04-01T00:00:00'' locked_file)
     [''app'', ''logs'', ''etl'', ''20240401_000000.log''] = Some ''c''"
proof -
  have r: "runs retention_manager = [older_run, old_run, boundary_run]"
    by (simp add: retention_manager_def)
  have s: "started_at older_run = ''2024-03-01T07:00:00''"
    "started_at old_run = ''2024-03-31T23:59:59.999999''"
    "started_at boundary_run = ''2024-04-01T00:00:00''"
    by (simp_all add: older_run_def old_run_def boundary_run_def)
  have l: "log_path older_run = Some ''etl/20240301_070000.log''"
    "log_path old_run = Some ''etl/20240331_235959.log''"
    "log_path boundary_run = Some ''etl/20240401_000000.log''"
    by (simp_all add: older_run_def old_run_def boundary_run_def)
  have t: "log_targets retention_manager [older_run, old_run] =
           [[''app'', ''logs'', ''etl'', ''20240301_070000.log''],
            [''app'', ''logs'', ''etl'', ''20240331_235959.log'']]"
    by (simp add: log_targets_def l log_file_of_def retention_manager_def live_manager_def
          path_join_def is_absolute_def resolve_def resolve_step_def)
  have f: "files retention_manager =
           [[''app'', ''logs'', ''etl'', ''20240301_070000.log''] \<mapsto> ''a'',
            [''app'', ''logs'', ''etl'', ''20240331_235959.log''] \<mapsto> ''b'',
            [''app'', ''logs'', ''etl'', ''20240401_000000.log''] \<mapsto> ''c'']"
    by (simp add: retention_manager_def)
  from cleanup_old_logs_exact [of retention_manager "''2024-04-01T00:00:00''" locked_file]
  show ?thesis
    by (simp add: r s t f locked_file_def)
qed

subsection \<open>C8: an unchanged manifest, and scanning twice\<close>

text \<open>
  A step of the first scan at \<open>rejected_manager\<close>: the \<^verbatim>\<open>UPDATE\<close> of \<^verbatim>\<open>etl\<close> is
  committed with the new modification time and the old registration is removed, then
  \<^verbatim>\<open>add_job\<close> raises.
\<close>

lemma rejected_first_step:
  "scan_step demo_check demo_yaml_load demo_clock rejected_manager ''etl'' =
     (Some (TypeError ''unexpected keyword argument hour''),
      rejected_manager
        \<lparr> jobs := [update_job_row demo_job hour_manifest ''etl'' 200 ''2024-05-02T08:00:00'',
                   gone_job],
          scheduler := [''gone'' \<mapsto> demo_trigger] \<rparr>)"
  by (simp add: scan_step_def scanned_manifest_def hidden_def manifest_file_def
        rejected_manager_def live_manager_def hour_bundle_def needs_update_def get_job_def
        demo_job_def gone_job_def demo_yaml_load_def register_job_def schedule_job_def
        add_job_def remove_job_def interval_kwargs_def demo_check_def hour_manifest_def
        schedule_type_of_def schedule_config_of_def schedule_of_def demo_clock_def Let_def
        update_job_row_kept)

text \<open>
  C8. The claim: a job whose manifest has the stored modification time is left alone
  by a scan, and scanning twice in a row with no change on disk equals scanning once.
  The first part holds (\<open>scan_jobs_keeps_unchanged_manifest\<close>). The second fails:
  \<^verbatim>\<open>register_job\<close> commits the new modification time and removes the old registration
  before \<^verbatim>\<open>add_job\<close> can raise, and nothing catches the exception. At
  \<open>rejected_manager\<close> the first scan is cut short at \<^verbatim>\<open>etl\<close>: \<^verbatim>\<open>etl\<close> is left without a
  registration and the stale job \<^verbatim>\<open>gone\<close> stays. The second scan of the same tree
  passes over \<^verbatim>\<open>etl\<close>, runs to its end and removes \<^verbatim>\<open>gone\<close>.
\<close>

theorem scan_jobs_twice_differs:
  "fst (scan_jobs demo_check demo_yaml_load demo_clock rejected_manager) =
     Some (TypeError ''unexpected keyword argument hour'') \<and>
   get_job (snd (scan_jobs demo_check demo_yaml_load demo_clock rejected_manager)) ''gone'' =
     Some gone_job \<and>
   scheduler (snd (scan_jobs demo_check demo_yaml_load demo_clock rejected_manager)) ''etl'' = None \<and>
   fst (scan_jobs demo_check demo_yaml_load demo_clock
          (snd (scan_jobs demo_check demo_yaml_load demo_clock rejected_manager))) = None \<and>
   get_job (snd (scan_jobs demo_check demo_yaml_load demo_clock
                   (snd (scan_jobs demo_check demo_yaml_load demo_clock rejected_manager))))
     ''gone'' = None"
proof -
  have l: "listdir (jobs_dir rejected_manager) = [''etl'']"
    by (simp add: listdir_def rejected_manager_def)
  have e: "jobs_dir_exists rejected_manager"
    by (simp add: rejected_manager_def live_manager_def)
  have s1: "scan_jobs demo_check demo_yaml_load demo_clock rejected_manager =
     (Some (TypeError ''unexpected keyword argument hour''),
      rejected_manager
        \<lparr> jobs := [update_job_row demo_job hour_manifest ''etl'' 200 ''2024-05-02T08:00:00'',
                   gone_job],
          scheduler := [''gone'' \<mapsto> demo_trigger] \<rparr>)"
    by (simp add: scan_jobs_def l e rejected_first_step)
  show ?thesis
    by (simp only: s1 fst_conv snd_conv)
       (simp add: scan_jobs_def scan_step_def scanned_manifest_def hidden_def manifest_file_def
          rejected_manager_def live_manager_def hour_bundle_def needs_update_def get_job_def
          demo_job_def gone_job_def update_job_row_def listdir_def found_job_ids_def
          remove_stale_jobs_def unregister_job_def remove_job_def)
qed

subsection \<open>C9: a manifest that has gone\<close>

text \<open>
  C9, as amended. When the jobs directory exists and the scan runs to its end without
  an exception, a registered job for which the scanner finds no manifest loses its row
  and its registration in the scheduler. When the jobs directory does not exist, the
  scan returns at once and changes nothing. In every case the runs are untouched, and
  the run history returns the same runs as before, for every filter and limit.
\<close>

theorem scan_jobs_removes_missing:
  "(jobs_dir_exists m \<and> fst (scan_jobs check yl c m) = None \<and>
    scanned_manifest m j = None \<and> get_job m j = Some row \<longrightarrow>
      get_job (snd (scan_jobs check yl c m)) j = None \<and>
      scheduler (snd (scan_jobs check yl c m)) j = None) \<and>
   (\<not> jobs_dir_exists m \<longrightarrow> scan_jobs check yl c m = (None, m)) \<and>
   runs (snd (scan_jobs check yl c m)) = runs m \<and>
   map fst (get_runs (snd (scan_jobs check yl c m)) jf sf lim) = map fst (get_runs m jf sf lim)"
proof (intro conjI impI)
  assume a: "jobs_dir_exists m \<and> fst (scan_jobs check yl c m) = None \<and>
             scanned_manifest m j = None \<and> get_job m j = Some row"
  have po: "passed_over m j" using a by (simp add: passed_over_def)
  obtain e m' where s: "scan_loop check yl c m (listdir (jobs_dir m)) = (e, m')"
    by (cases "scan_loop check yl c m (listdir (jobs_dir m))")
  have e: "e = None"
  proof (cases e)
    case None
    then show ?thesis .
  next
    case (Some x)
    have "scan_jobs check yl c m = (Some x, m')"
      using a s Some by (simp add: scan_jobs_def)
    with a show ?thesis by simp
  qed
  have sc: "scan_jobs check yl c m = (None, remove_stale_jobs m' (found_job_ids m))"
    using a s e by (simp add: scan_jobs_def)
  have rows: "filter (\<lambda>r. jid r = j) (jobs m') = filter (\<lambda>r. jid r = j) (jobs m)"
    using scan_loop_passed_over_keeps [OF po, of check yl c "listdir (jobs_dir m)"] s by simp
  have ne: "filter (\<lambda>r. jid r = j) (jobs m') \<noteq> []"
    using a by (auto simp: rows get_job_rows split: list.splits)
  have nf: "j \<notin> set (found_job_ids m)"
    using a scanned_in_found [of m j] by simp
  show "get_job (snd (scan_jobs check yl c m)) j = None"
    using remove_stale_drops_missing(1) [OF nf ne] by (simp add: sc)
  show "scheduler (snd (scan_jobs check yl c m)) j = None"
    using remove_stale_drops_missing(2) [OF nf ne] by (simp add: sc)
next
  assume "\<not> jobs_dir_exists m"
  then show "scan_jobs check yl c m = (None, m)" by (simp add: scan_jobs_def)
next
  show r: "runs (snd (scan_jobs check yl c m)) = runs m"
    by (rule registry_only_fields(1) [OF scan_jobs_registry])
  show "map fst (get_runs (snd (scan_jobs check yl c m)) jf sf lim) = map fst (get_runs m jf sf lim)"
    by (rule get_runs_rows [OF r])
qed

text \<open>
  At \<open>vanished_manager\<close> the task directory of \<^verbatim>\<open>etl\<close> has gone and its one run stays
  on record; at \<open>orphan_manager\<close> the jobs directory has gone.
\<close>

theorem scan_jobs_removes_missing_witness:
  "jobs_dir_exists vanished_manager \<and>
   fst (scan_jobs demo_check demo_yaml_load demo_clock vanished_manager) = None \<and>
   scanned_manifest vanished_manager ''etl'' = None \<and>
   get_job vanished_manager ''etl'' = Some demo_job \<and>
   get_job (snd (scan_jobs demo_check demo_yaml_load demo_clock vanished_manager)) ''etl'' = None \<and>
   scheduler (snd (scan_jobs demo_check demo_yaml_load demo_clock vanished_manager)) ''etl'' = None \<and>
   \<not> jobs_dir_exists orphan_manager \<and>
   scan_jobs demo_check demo_yaml_load demo_clock orphan_manager = (None, orphan_manager) \<and>
   runs (snd (scan_jobs demo_check demo_yaml_load demo_clock vanished_manager)) = [history_run] \<and>
   map fst (get_runs (snd (scan_jobs demo_check demo_yaml_load demo_clock vanished_manager))
              (Some ''etl'') None 50) = [history_run]"
proof -
  have a: "jobs_dir_exists vanished_manager"
    by (simp add: vanished_manager_def live_manager_def)
  have n: "fst (scan_jobs demo_check demo_yaml_load demo_clock vanished_manager) = None"
    by (simp add: scan_jobs_def listdir_def vanished_manager_def live_manager_def)
  have b: "scanned_manifest vanished_manager ''etl'' = None"
    by (simp add: scanned_manifest_def manifest_file_def vanished_manager_def)
  have c: "get_job vanished_manager ''etl'' = Some demo_job"
    by (simp add: get_job_def vanished_manager_def live_manager_def demo_job_def)
  have d: "runs vanished_manager = [history_run]"
    by (simp add: vanished_manager_def)
  have e: "map fst (get_runs vanished_manager (Some ''etl'') None 50) = [history_run]"
    by (simp add: get_runs_def run_matches_def d history_run_def old_run_def)
  have o: "\<not> jobs_dir_exists orphan_manager"
    by (simp add: orphan_manager_def)
  from scan_jobs_removes_missing [of vanished_manager demo_check demo_yaml_load demo_clock
         "''etl''" demo_job "Some ''etl''" None 50]
       scan_jobs_removes_missing [of orphan_manager demo_check demo_yaml_load demo_clock
         "''etl''" demo_job "Some ''etl''" None 50]
       a n b c d e o
  show ?thesis by simp
qed

text \<open>
  The claim as stated, for every manifest absent from the disk, fails when the jobs
  directory itself is absent: \<^verbatim>\<open>scan_jobs\<close> then logs a warning and returns before it
  looks at any job, so the row and the registration of \<^verbatim>\<open>etl\<close> stay.
\<close>

theorem scan_jobs_missing_jobs_dir:
  "scanned_manifest orphan_manager ''etl'' = None \<and>
   get_job orphan_manager ''etl'' = Some demo_job \<and>
   fst (scan_jobs demo_check demo_yaml_load demo_clock orphan_manager) = None \<and>
   get_job (snd (scan_jobs demo_check demo_yaml_load demo_clock orphan_manager)) ''etl'' =
     Some demo_job \<and>
   scheduler (snd (scan_jobs demo_check demo_yaml_load demo_clock orphan_manager)) ''etl'' =
     Some demo_trigger"
  by (simp add: scan_jobs_def orphan_manager_def vanished_manager_def live_manager_def
        scanned_manifest_def manifest_file_def hidden_def get_job_def demo_job_def)

subsection \<open>C10: a disabled job stays disabled\<close>

text \<open>
  C10. When \<^verbatim>\<open>register_job\<close> updates a job that is already registered, the job keeps
  its \<^verbatim>\<open>enabled\<close> flag and its creation timestamp, and it has a registration in the
  scheduler afterwards only if the stored flag is true. Hence a job that is disabled
  and has no registration is, after any scan, whether the scan ends or is cut short,
  either removed or still disabled, and has no registration.
\<close>

theorem register_job_keeps_enabled:
  "(get_job m j = Some row \<longrightarrow>
      (\<exists>row'. get_job (snd (register_job check m j cfg tsk mt now)) j = Some row' \<and>
               enabled row' = enabled row \<and> created_at row' = created_at row) \<and>
      (scheduler (snd (register_job check m j cfg tsk mt now)) j \<noteq> None \<longrightarrow> enabled row)) \<and>
   (get_job m j = Some row \<and> \<not> enabled row \<and> scheduler m j = None \<longrightarrow>
      scheduler (snd (scan_jobs check yl c m)) j = None \<and>
      (case get_job (snd (scan_jobs check yl c m)) j of
         None \<Rightarrow> True | Some row' \<Rightarrow> \<not> enabled row'))"
proof (intro conjI impI)
  assume a: "get_job m j = Some row"
  show "\<exists>row'. get_job (snd (register_job check m j cfg tsk mt now)) j = Some row' \<and>
               enabled row' = enabled row \<and> created_at row' = created_at row"
    using a by (simp add: register_job_get update_job_row_kept)
next
  assume a: "get_job m j = Some row"
    and t: "scheduler (snd (register_job check m j cfg tsk mt now)) j \<noteq> None"
  show "enabled row"
  proof (rule ccontr)
    assume "\<not> enabled row"
    then have "scheduler (snd (register_job check m j cfg tsk mt now)) j = None"
      using a by (simp add: register_job_existing_trigger schedule_job_trigger)
    with t show False by simp
  qed
next
  assume a: "get_job m j = Some row \<and> \<not> enabled row \<and> scheduler m j = None"
  then have d: "disabled_idle m j" by (simp add: disabled_idle_def)
  obtain e m1 where s: "scan_loop check yl c m (listdir (jobs_dir m)) = (e, m1)"
    by (cases "scan_loop check yl c m (listdir (jobs_dir m))")
  have d1: "disabled_idle m1 j"
    using disabled_idle_loop [OF d, of check yl c "listdir (jobs_dir m)"] s by simp
  then obtain r where r: "get_job m1 j = Some r" "\<not> enabled r" "scheduler m1 j = None"
    by (auto simp: disabled_idle_def split: option.splits)
  have sc: "snd (scan_jobs check yl c m) =
            (if jobs_dir_exists m \<and> e = None then remove_stale_jobs m1 (found_job_ids m)
             else if jobs_dir_exists m then m1 else m)"
    using s by (cases e) (simp_all add: scan_jobs_def)
  show "scheduler (snd (scan_jobs check yl c m)) j = None"
    using a r by (simp add: sc remove_stale_jobs_closed)
  have keep: "get_job (remove_stale_jobs m1 (found_job_ids m)) j = None \<or>
        get_job (remove_stale_jobs m1 (found_job_ids m)) j = get_job m1 j"
  proof (cases "j \<in> set (found_job_ids m)")
    case True
    then show ?thesis
      using remove_stale_keeps_found(1) [OF True, of m1] by (simp add: get_job_rows)
  next
    case False
    then have "filter (\<lambda>r. jid r = j) (filter (\<lambda>r. jid r \<in> set (found_job_ids m)) (jobs m1)) = []"
      by (auto simp: filter_empty_conv)
    then show ?thesis by (simp add: get_job_rows remove_stale_jobs_closed)
  qed
  show "case get_job (snd (scan_jobs check yl c m)) j of
          None \<Rightarrow> True | Some row' \<Rightarrow> \<not> enabled row'"
    using keep a r by (auto simp: sc split: option.splits)
qed

text \<open>
  At \<open>disabled_manager\<close> the manifest of the disabled job \<^verbatim>\<open>etl\<close> has been edited.
\<close>

theorem register_job_keeps_enabled_witness:
  "get_job disabled_manager ''etl'' = Some disabled_job \<and> \<not> enabled disabled_job \<and>
   scheduler disabled_manager ''etl'' = None \<and>
   (\<exists>row'. get_job (snd (register_job demo_check disabled_manager ''etl'' demo_manifest ''etl'' 200
                           ''2024-05-02T08:00:00'')) ''etl'' = Some row' \<and>
            \<not> enabled row' \<and> created_at row' = ''2024-05-01T09:00:00'') \<and>
   scheduler (snd (register_job demo_check disabled_manager ''etl'' demo_manifest ''etl'' 200
                     ''2024-05-02T08:00:00'')) ''etl'' = None \<and>
   scheduler (snd (scan_jobs demo_check demo_yaml_load demo_clock disabled_manager)) ''etl'' = None \<and>
   (case get_job (snd (scan_jobs demo_check demo_yaml_load demo_clock disabled_manager)) ''etl'' of
      None \<Rightarrow> True | Some row' \<Rightarrow> \<not> enabled row')"
proof -
  have a: "get_job disabled_manager ''etl'' = Some disabled_job"
    by (simp add: get_job_def disabled_manager_def disabled_job_def demo_job_def)
  have b: "\<not> enabled disabled_job" "created_at disabled_job = ''2024-05-01T09:00:00''"
    by (simp_all add: disabled_job_def demo_job_def)
  have c: "scheduler disabled_manager ''etl'' = None"
    by (simp add: disabled_manager_def)
  from register_job_keeps_enabled [of disabled_manager "''etl''" disabled_job demo_check
         demo_manifest "''etl''" 200 "''2024-05-02T08:00:00''" demo_yaml_load demo_clock] a b c
  show ?thesis by auto
qed

end
